theory Spec2Isabelle
  imports Complex_Main "HOL-Library.AList" "HOL-Library.Multiset"
begin

section \<open>Data model\<close>

text \<open>
  In the hop processing a JavaScript number is read as a real: the latencies of the
  program are finite and its comparisons are far from any rounding boundary.
  \<open>null\<close> (and \<open>undefined\<close>) is \<open>None\<close>. The only places where the
  source can produce \<open>Infinity\<close> or \<open>NaN\<close> from finite numbers are divisions,
  and each of them is written out where it occurs. The arithmetic of
  \<open>calculateTrend\<close>, whose result depends on the rounding of its means, is modelled
  on binary64 numbers in the section of that function.
\<close>

text \<open>
  An entry of a hop's \<open>pingHistory\<close>. \<open>updateHopHistory\<close> pushes the four
  basic fields only; \<open>addRecentPing\<close>, \<open>addTimeoutPing\<close> and
  \<open>populatePingHistory\<close> add the probe's timeout and the three flags
  (\<open>p_detail\<close>). \<open>p_responseTime = None\<close> is the string \<open>'timeout'\<close>.
\<close>

record ping_detail =
  p_timeout :: nat
  p_responseTime :: "real option"
  p_isTimeout :: bool
  p_isLongTimeout :: bool
  p_isSlowPing :: bool

record ping_entry =
  p_pingNumber :: nat
  p_timestamp :: nat
  p_latency :: "real option"
  p_isReachable :: bool
  p_detail :: "ping_detail option"

text \<open>An entry of a hop's run \<open>history\<close> (continuous mode).\<close>

record run_entry =
  r_runNumber :: "nat option"
  r_timestamp :: nat
  r_times :: "real list"
  r_avgLatency :: "real option"
  r_isReachable :: bool

text \<open>
  What the reachability probe (\<open>ping.promise.probe\<close>) resolves to, and what
  \<open>pingHopWithRetry\<close> returns: \<open>alive\<close>, \<open>time\<close> (a number, or
  \<open>None\<close> for \<open>null\<close> and the library's \<open>'unknown'\<close>, which it
  reports only together with \<open>alive = false\<close> and which is treated as \<open>null\<close>
  throughout), the error message
  \<open>pingHopWithRetry\<close> adds on failure, and the library's \<open>packetLoss\<close>.
\<close>

record ping_result =
  alive :: bool
  time :: "real option"
  error :: "string option"
  res_packetLoss :: "real option"

text \<open>
  The hop object built by \<open>processHop\<close> and enriched in place afterwards.
  \<open>pingHistory = None\<close> and \<open>history = None\<close> are the absent properties
  (\<open>processHop\<close> sets neither). \<open>packetLoss\<close> is the number
  \<open>parseFloat\<close> reads from the property, \<open>None\<close> for \<open>null\<close>.
\<close>

record hop_info =
  hop :: nat
  ip :: "string option"
  hostname :: "string option"
  times :: "real list"
  pingResults :: "ping_result list option"
  isReachable :: bool
  avgLatency :: "real option"
  packetLoss :: "real option"
  pingCount :: "nat option"
  hopKey :: string
  runNumber :: "nat option"
  sessionId :: "string option"
  timestamp :: nat
  successfulPings :: "nat option"
  pingHistory :: "ping_entry list option"
  history :: "run_entry list option"

text \<open>
  The configuration \<open>validateConfig\<close> returns. \<open>continuousPing\<close> is read by
  \<open>processHop\<close> but is not among the properties \<open>validateConfig\<close> writes,
  so it is \<open>False\<close> (undefined) in every validated configuration.
\<close>

record config =
  target :: string
  maxHops :: int
  timeout :: int
  protocol :: string
  port :: "int option"
  resolveHosts :: bool
  hostnameTimeout :: int
  pingHops :: bool
  realTime :: bool
  interval :: int
  skipSlowHops :: bool
  slowHopThreshold :: int
  skipPacketLoss :: bool
  prioritizeFastHops :: bool
  maxHopsToProcess :: nat
  continuousPing :: bool

section \<open>HopProcessor: classification and priority\<close>

datatype behaviour =
  VERY_SLOW_HOP | SLOW_HOP | MODERATELY_SLOW_HOP | INCREASING_LATENCY | PACKET_LOSS
  | CONFIGURED_SKIP | PACKET_LOSS_SKIP | NORMAL

text \<open>
  The object \<open>analyzeSlowHop\<close> returns, without its display strings
  (\<open>reason\<close>, \<open>recommendations\<close>) and the fields it copies from the hop.
\<close>

record slow_analysis =
  isSlow :: bool
  shouldSkip :: bool
  behavior :: "behaviour option"

text \<open>
  \<open>hop.pingHistory.slice(-3)\<close> and the mean of \<open>p.latency || 0\<close> over it;
  only used on a non-empty history.
\<close>

definition avgRecentLatency :: "ping_entry list \<Rightarrow> real" where
  "avgRecentLatency ph =
     (let recentPings = drop (length ph - 3) ph
      in sum_list (map (\<lambda>p. case p_latency p of None \<Rightarrow> 0 | Some l \<Rightarrow> l) recentPings)
           / real (length recentPings))"

text \<open>
  \<open>analyzeSlowHop(hop)\<close>. The guard \<open>pingLatency && typeof pingLatency === 'number'\<close>
  fails for \<open>null\<close> and for 0. The three checks run in sequence on the same
  local variables, so a later one overrides an earlier one.
\<close>

definition analyzeSlowHop :: "hop_info \<Rightarrow> slow_analysis" where
  "analyzeSlowHop h =
     (let notSlow = \<lparr>isSlow = False, shouldSkip = False, behavior = None\<rparr>
      in case avgLatency h of
           None \<Rightarrow> notSlow
         | Some pingLatency \<Rightarrow>
             if pingLatency = 0 then notSlow
             else
               let a1 = (if pingLatency > 100
                           then \<lparr>isSlow = True, shouldSkip = True, behavior = Some VERY_SLOW_HOP\<rparr>
                         else if pingLatency > 50
                           then \<lparr>isSlow = True, shouldSkip = True, behavior = Some SLOW_HOP\<rparr>
                         else if pingLatency > 20
                           then \<lparr>isSlow = True, shouldSkip = False,
                                  behavior = Some MODERATELY_SLOW_HOP\<rparr>
                         else notSlow);
                   a2 = (case pingHistory h of
                           None \<Rightarrow> a1
                         | Some ph \<Rightarrow>
                             if ph \<noteq> [] \<and> avgRecentLatency ph > pingLatency * 1.5
                             then \<lparr>isSlow = True, shouldSkip = True,
                                    behavior = Some INCREASING_LATENCY\<rparr>
                             else a1);
                   a3 = (case packetLoss h of
                           None \<Rightarrow> a2
                         | Some pl \<Rightarrow>
                             if pl > 0
                             then \<lparr>isSlow = True, shouldSkip = True, behavior = Some PACKET_LOSS\<rparr>
                             else a2)
               in if isSlow a3 then a3 else notSlow)"

text \<open>The object \<open>shouldSkipHop\<close> returns, without its \<open>reason\<close> string.\<close>

record skip_decision =
  d_shouldSkip :: bool
  d_behavior :: "behaviour option"

text \<open>
  \<open>shouldSkipHop(hop, config)\<close>. \<open>config.slowHopThreshold || 50\<close> replaces a
  threshold of 0 by 50.
\<close>

definition shouldSkipHop :: "hop_info \<Rightarrow> config \<Rightarrow> skip_decision" where
  "shouldSkipHop h cfg =
     (let slowHopAnalysis = analyzeSlowHop h
      in if shouldSkip slowHopAnalysis
         then \<lparr>d_shouldSkip = True, d_behavior = behavior slowHopAnalysis\<rparr>
         else if skipSlowHops cfg \<and>
                 (case avgLatency h of
                    None \<Rightarrow> False
                  | Some pingLatency \<Rightarrow>
                      pingLatency \<noteq> 0 \<and>
                      pingLatency >
                        real_of_int (if slowHopThreshold cfg = 0 then 50
                                     else slowHopThreshold cfg))
         then \<lparr>d_shouldSkip = True, d_behavior = Some CONFIGURED_SKIP\<rparr>
         else if skipPacketLoss cfg \<and>
                 (case packetLoss h of None \<Rightarrow> False | Some pl \<Rightarrow> pl > 0)
         then \<lparr>d_shouldSkip = True, d_behavior = Some PACKET_LOSS_SKIP\<rparr>
         else \<lparr>d_shouldSkip = False, d_behavior = Some NORMAL\<rparr>)"

text \<open>
  \<open>getHopPriority(hop)\<close>: \<open>hop.avgLatency || 0\<close>, then the latency bands in
  the order of the source; the skip recommendation is consulted last.
\<close>

definition getHopPriority :: "hop_info \<Rightarrow> nat" where
  "getHopPriority h =
     (let slowHopAnalysis = analyzeSlowHop h;
          pingLatency = (case avgLatency h of None \<Rightarrow> 0 | Some l \<Rightarrow> l)
      in if pingLatency < 5 then 1
         else if pingLatency < 10 then 2
         else if pingLatency < 20 then 3
         else if pingLatency < 50 then 4
         else if shouldSkip slowHopAnalysis then 999
         else 5)"

section \<open>Promises, the probe capability and pingHopWithRetry\<close>

text \<open>
  A promise is described by how it ends: it settles at some time (milliseconds after the
  call that created it), fulfilled with a result or rejected with an error message, or
  it never settles.
\<close>

datatype 'a outcome = Fulfilled 'a | Rejected string

datatype 'a promise = Settles nat "'a outcome" | NeverSettles

text \<open>
  One call of the external probe \<open>ping.promise.probe(ip, options)\<close>: it throws at
  once, or returns a promise. The capability is any function of the address and of
  \<open>options.timeout\<close> (seconds).
\<close>

datatype probe_call = ProbeThrows string | ProbeReturns "ping_result promise"

type_synonym probe_capability = "string option \<Rightarrow> real \<Rightarrow> probe_call"

text \<open>
  \<open>Promise.race([p, q])\<close>: the one that settles first; when both settle in the same
  millisecond the array order decides.
\<close>

definition race :: "'a promise \<Rightarrow> 'a promise \<Rightarrow> 'a promise" where
  "race p q =
     (case p of
        NeverSettles \<Rightarrow> q
      | Settles t1 r1 \<Rightarrow>
          (case q of
             NeverSettles \<Rightarrow> p
           | Settles t2 r2 \<Rightarrow> if t1 \<le> t2 then p else q))"

text \<open>
  \<open>new Promise((_, reject) => setTimeout(() => reject(new Error('Ping timeout')), timeout))\<close>
\<close>

definition timeoutPromise :: "nat \<Rightarrow> 'a promise" where
  "timeoutPromise ms = Settles ms (Rejected ''Ping timeout'')"

text \<open>The object the \<open>catch\<close> of \<open>pingHopWithRetry\<close> returns.\<close>

definition failedPing :: "string \<Rightarrow> ping_result" where
  "failedPing msg = \<lparr>alive = False, time = None, error = Some msg, res_packetLoss = None\<rparr>"

text \<open>
  \<open>pingHopWithRetry(ip, timeout)\<close>: an async function whose whole body is one
  \<open>try\<close>. A synchronous throw of the probe and a rejection of the race both reach
  the \<open>catch\<close>, which returns the failure object. The \<open>retries\<close> parameter is
  unused in the source.
\<close>

definition pingHopWithRetry :: "probe_capability \<Rightarrow> string option \<Rightarrow> nat \<Rightarrow> ping_result promise" where
  "pingHopWithRetry probe a ms =
     (case probe a (max (real ms / 1000) 0.05) of
        ProbeThrows msg \<Rightarrow> Settles 0 (Fulfilled (failedPing msg))
      | ProbeReturns pingPromise \<Rightarrow>
          (case race pingPromise (timeoutPromise ms) of
             Settles t (Fulfilled pingResult) \<Rightarrow> Settles t (Fulfilled pingResult)
           | Settles t (Rejected msg) \<Rightarrow> Settles t (Fulfilled (failedPing msg))
           | NeverSettles \<Rightarrow> NeverSettles))"

text \<open>
  The probe call did not produce a result in time: it threw, its promise was rejected,
  or it lost the race against the timer (settling later than \<open>ms\<close>, or never).
\<close>

definition probeErrorOrTimeout :: "probe_call \<Rightarrow> nat \<Rightarrow> bool" where
  "probeErrorOrTimeout c ms =
     (case c of
        ProbeThrows msg \<Rightarrow> True
      | ProbeReturns NeverSettles \<Rightarrow> True
      | ProbeReturns (Settles t (Rejected msg)) \<Rightarrow> True
      | ProbeReturns (Settles t (Fulfilled r)) \<Rightarrow> ms < t)"

text \<open>The message the failure object carries in that case.\<close>

definition probeErrorMessage :: "probe_call \<Rightarrow> nat \<Rightarrow> string" where
  "probeErrorMessage c ms =
     (case c of
        ProbeThrows msg \<Rightarrow> msg
      | ProbeReturns NeverSettles \<Rightarrow> ''Ping timeout''
      | ProbeReturns (Settles t (Rejected msg)) \<Rightarrow> (if t \<le> ms then msg else ''Ping timeout'')
      | ProbeReturns (Settles t (Fulfilled r)) \<Rightarrow> ''Ping timeout'')"

section \<open>HopProcessor: ping history\<close>

text \<open>\<open>x || null\<close> on a number or \<open>null\<close>: 0 is falsy.\<close>

definition truthyNumber :: "real option \<Rightarrow> real option" where
  "truthyNumber v = (case v of None \<Rightarrow> None | Some x \<Rightarrow> if x = 0 then None else Some x)"

text \<open>\<open>pingNumber || hop.pingCount || 1\<close>\<close>

definition pingNumberOr :: "nat option \<Rightarrow> hop_info \<Rightarrow> nat" where
  "pingNumberOr pn h =
     (let fromCount = (case pingCount h of
                         None \<Rightarrow> 1
                       | Some c \<Rightarrow> if c = 0 then 1 else c)
      in case pn of None \<Rightarrow> fromCount | Some n \<Rightarrow> if n = 0 then fromCount else n)"

text \<open>\<open>if (xs.length > n) { xs.shift(); }\<close>\<close>

definition shiftIfOver :: "nat \<Rightarrow> 'a list \<Rightarrow> 'a list" where
  "shiftIfOver n xs = (if length xs > n then tl xs else xs)"

text \<open>\<open>if (!hop.pingHistory) { hop.pingHistory = []; }\<close>\<close>

definition pingHistoryOrEmpty :: "hop_info \<Rightarrow> ping_entry list" where
  "pingHistoryOrEmpty h = (case pingHistory h of None \<Rightarrow> [] | Some ph \<Rightarrow> ph)"

text \<open>
  \<open>addRecentPing(hop, pingResult, timeout, pingNumber)\<close>; \<open>now\<close> is
  \<open>Date.now()\<close>.
\<close>

definition addRecentPing :: "nat \<Rightarrow> hop_info \<Rightarrow> ping_result \<Rightarrow> nat \<Rightarrow> nat option \<Rightarrow> hop_info" where
  "addRecentPing now h pingResult ms pn =
     (let isTimeout = (\<not> alive pingResult \<or> time pingResult = None);
          isLongTimeout = (isTimeout \<and> ms \<ge> 1000);
          isSlowPing = (alive pingResult \<and>
                        (case time pingResult of None \<Rightarrow> False | Some x \<Rightarrow> x \<noteq> 0 \<and> x > 100));
          pingEntry =
            \<lparr>p_pingNumber = pingNumberOr pn h,
             p_timestamp = now,
             p_latency = truthyNumber (time pingResult),
             p_isReachable = alive pingResult,
             p_detail = Some \<lparr>p_timeout = ms,
                               p_responseTime = truthyNumber (time pingResult),
                               p_isTimeout = isTimeout,
                               p_isLongTimeout = isLongTimeout,
                               p_isSlowPing = isSlowPing\<rparr>\<rparr>
      in h\<lparr>pingHistory := Some (shiftIfOver 20 (pingHistoryOrEmpty h @ [pingEntry]))\<rparr>)"

text \<open>\<open>addTimeoutPing(hop, timeout, pingNumber)\<close>\<close>

definition addTimeoutPing :: "nat \<Rightarrow> hop_info \<Rightarrow> nat \<Rightarrow> nat option \<Rightarrow> hop_info" where
  "addTimeoutPing now h ms pn =
     (let timeoutEntry =
            \<lparr>p_pingNumber = pingNumberOr pn h,
             p_timestamp = now,
             p_latency = None,
             p_isReachable = False,
             p_detail = Some \<lparr>p_timeout = ms,
                               p_responseTime = None,
                               p_isTimeout = True,
                               p_isLongTimeout = (ms \<ge> 1000),
                               p_isSlowPing = False\<rparr>\<rparr>
      in h\<lparr>pingHistory := Some (shiftIfOver 20 (pingHistoryOrEmpty h @ [timeoutEntry]))\<rparr>)"

text \<open>
  \<open>populatePingHistory(hop)\<close>: the current probe latency is pushed unless an entry
  with the same ping number and timestamp is there already.
\<close>

definition populatePingHistory :: "nat \<Rightarrow> hop_info \<Rightarrow> hop_info" where
  "populatePingHistory now h =
     (let ph = pingHistoryOrEmpty h
      in case truthyNumber (avgLatency h) of
           None \<Rightarrow> h\<lparr>pingHistory := Some ph\<rparr>
         | Some l \<Rightarrow>
             if \<exists>p \<in> set ph. p_pingNumber p = pingNumberOr None h \<and> p_timestamp p = timestamp h
             then h\<lparr>pingHistory := Some ph\<rparr>
             else
               h\<lparr>pingHistory := Some (shiftIfOver 20 (ph @
                  [\<lparr>p_pingNumber = pingNumberOr None h,
                    p_timestamp = (if timestamp h = 0 then now else timestamp h),
                    p_latency = Some l,
                    p_isReachable = isReachable h,
                    p_detail = Some \<lparr>p_timeout = 1000,
                                      p_responseTime = Some l,
                                      p_isTimeout = (\<not> isReachable h),
                                      p_isLongTimeout = (l \<ge> 1000),
                                      p_isSlowPing = (l > 100)\<rparr>\<rparr>]))\<rparr>)"

section \<open>HopProcessor: updateHopHistory\<close>

text \<open>The decimal string of a number, as a template literal prints a hop index.\<close>

function natToString :: "nat \<Rightarrow> string" where
  "natToString n =
     (if n < 10 then [''0123456789'' ! n]
      else natToString (n div 10) @ [''0123456789'' ! (n mod 10)])"
  by pat_completeness auto
termination
  by (relation "measure id") auto

declare natToString.simps [simp del]

text \<open>
  The session's \<open>allHops\<close>: a JavaScript \<open>Map\<close> from hop key to hop object, in
  insertion order. \<open>Map.get\<close> is \<open>map_of\<close>, \<open>Map.set\<close> is
  \<open>AList.update\<close> (a new key goes to the end, an existing key keeps its place).
\<close>

type_synonym hop_map = "(string \<times> hop_info) list"

text \<open>
  \<open>hopData.hopKey || `${hopData.hop}_${hopData.ip || 'unknown'}`\<close>: the empty
  string is falsy.
\<close>

definition hopKeyOf :: "hop_info \<Rightarrow> string" where
  "hopKeyOf hopData =
     (if hopKey hopData \<noteq> [] then hopKey hopData
      else natToString (hop hopData) @ ''_'' @
           (case ip hopData of
              None \<Rightarrow> ''unknown''
            | Some a \<Rightarrow> if a = [] then ''unknown'' else a))"

text \<open>The entry \<open>updateHopHistory\<close> pushes to the run history.\<close>

definition runEntryOf :: "hop_info \<Rightarrow> run_entry" where
  "runEntryOf hopData =
     \<lparr>r_runNumber = runNumber hopData,
      r_timestamp = timestamp hopData,
      r_times = times hopData,
      r_avgLatency = avgLatency hopData,
      r_isReachable = isReachable hopData\<rparr>"

text \<open>
  The entries it pushes to the ping history: one when
  \<open>hopData.avgLatency && typeof hopData.avgLatency === 'number'\<close>, none otherwise.
\<close>

definition pingEntriesOf :: "hop_info \<Rightarrow> ping_entry list" where
  "pingEntriesOf hopData =
     (case truthyNumber (avgLatency hopData) of
        None \<Rightarrow> []
      | Some l \<Rightarrow>
          [\<lparr>p_pingNumber = pingNumberOr None hopData,
            p_timestamp = timestamp hopData,
            p_latency = Some l,
            p_isReachable = isReachable hopData,
            p_detail = None\<rparr>])"

text \<open>
  \<open>updateHopHistory(hopData, allHops)\<close>. The hop object stored in the map is
  mutated in place; here the updated object is written back under its key and also
  returned. Reading \<open>history\<close> or \<open>pingHistory\<close> of a stored object that lacks
  the property throws a \<open>TypeError\<close> (\<open>Inl\<close>).
\<close>

definition updateHopHistory :: "hop_info \<Rightarrow> hop_map \<Rightarrow> string + (hop_info \<times> hop_map)" where
  "updateHopHistory hopData allHops =
     (let key = hopKeyOf hopData;
          allHops1 = (if map_of allHops key = None
                      then AList.update key
                             (hopData\<lparr>history := Some [], pingHistory := Some []\<rparr>) allHops
                      else allHops)
      in case map_of allHops1 key of
           None \<Rightarrow> Inl ''TypeError''
         | Some h \<Rightarrow>
             (case history h of
                None \<Rightarrow> Inl ''TypeError''
              | Some hist \<Rightarrow>
                  (case pingHistory h of
                     None \<Rightarrow> Inl ''TypeError''
                   | Some ph \<Rightarrow>
                       let hist1 = hist @ [runEntryOf hopData];
                           ph1 = ph @ pingEntriesOf hopData;
                           ph2 = shiftIfOver 20 ph1;
                           hist2 = shiftIfOver 10 hist1;
                           h' = h\<lparr>history := Some hist2, pingHistory := Some ph2\<rparr>
                       in Inr (h', AList.update key h' allHops1))))"

text \<open>A sequence of observations applied to the map one after the other.\<close>

fun updateHopHistories :: "hop_info list \<Rightarrow> hop_map \<Rightarrow> string + hop_map" where
  "updateHopHistories [] allHops = Inr allHops"
| "updateHopHistories (hopData # rest) allHops =
     (case updateHopHistory hopData allHops of
        Inl e \<Rightarrow> Inl e
      | Inr (h', allHops') \<Rightarrow> updateHopHistories rest allHops')"

text \<open>The last \<open>n\<close> elements of a list (all of it when it is shorter).\<close>

definition lastN :: "nat \<Rightarrow> 'a list \<Rightarrow> 'a list" where
  "lastN n xs = drop (length xs - n) xs"

text \<open>The observations of a sequence that carry the hop key \<open>k\<close>, in order.\<close>

definition observationsOf :: "string \<Rightarrow> hop_info list \<Rightarrow> hop_info list" where
  "observationsOf k obs = filter (\<lambda>hopData. hopKeyOf hopData = k) obs"

text \<open>
  The state of the hop map after the observations \<open>obs\<close>: keys are not duplicated,
  a key is present exactly when it was observed, and its two windows hold the most
  recent entries of its own observations.
\<close>

definition historyInv :: "hop_map \<Rightarrow> hop_info list \<Rightarrow> bool" where
  "historyInv m obs =
     (distinct (map fst m) \<and>
      (\<forall>k. case map_of m k of
              None \<Rightarrow> observationsOf k obs = []
            | Some r \<Rightarrow>
                observationsOf k obs \<noteq> [] \<and>
                history r = Some (lastN 10 (map runEntryOf (observationsOf k obs))) \<and>
                pingHistory r =
                  Some (lastN 20 (concat (map pingEntriesOf (observationsOf k obs))))))"

section \<open>TracerouteService.trace: filtering and limiting the hops to probe\<close>

text \<open>
  The filter that collects \<open>validHops\<close>: \<open>hop.ip\<close> is truthy and none of the
  three markers.
\<close>

definition isValidHop :: "hop_info \<Rightarrow> bool" where
  "isValidHop h =
     (case ip h of
        None \<Rightarrow> False
      | Some a \<Rightarrow> a \<noteq> [] \<and> a \<noteq> ''Request timed out.'' \<and> a \<noteq> ''*'' \<and> a \<noteq> ''unknown'')"

text \<open>
  An element of \<open>hopAnalysis\<close>: \<open>{ hop, analysis, priority }\<close>. The
  \<open>hop\<close> property is a reference to a hop object; \<open>'r\<close> is the type of
  references.
\<close>

record 'r hop_analysis =
  a_hop :: 'r
  a_analysis :: skip_decision
  a_priority :: nat

text \<open>
  \<open>validHops.map(hop => ({ hop, analysis: shouldSkipHop(hop, config), priority:
  getHopPriority(hop, config) }))\<close>; \<open>deref\<close> reads the hop object behind a
  reference (the identity when hops are given by value, the position in the
  \<open>hops\<close> array in \<open>trace\<close> below).
\<close>

definition analyseHops :: "('r \<Rightarrow> hop_info) \<Rightarrow> config \<Rightarrow> 'r list \<Rightarrow> 'r hop_analysis list" where
  "analyseHops deref cfg validHops =
     map (\<lambda>r. \<lparr>a_hop = r, a_analysis = shouldSkipHop (deref r) cfg,
               a_priority = getHopPriority (deref r)\<rparr>)
       validHops"

text \<open>The three lists the step ends with.\<close>

record 'r hop_selection =
  skippedHops :: "'r hop_analysis list"
  finalHopsToPing :: "'r hop_analysis list"
  limitedHops :: "'r hop_analysis list"

text \<open>
  The step between collecting \<open>validHops\<close> and starting the probes.
  \<open>Array.prototype.sort\<close> with the comparator \<open>a.priority - b.priority\<close> is a
  stable sort by ascending priority, as \<open>sort_key\<close> is; \<open>slice(0, n)\<close> and
  \<open>slice(n)\<close> are \<open>take\<close> and \<open>drop\<close>.
\<close>

definition selectHops :: "('r \<Rightarrow> hop_info) \<Rightarrow> config \<Rightarrow> 'r list \<Rightarrow> 'r hop_selection" where
  "selectHops deref cfg validHops =
     (let hopAnalysis = analyseHops deref cfg validHops;
          hopsToPing = filter (\<lambda>item. \<not> d_shouldSkip (a_analysis item)) hopAnalysis;
          skipped = filter (\<lambda>item. d_shouldSkip (a_analysis item)) hopAnalysis
      in if maxHopsToProcess cfg \<noteq> 0 \<and> length hopsToPing > maxHopsToProcess cfg
         then
           let sortedHops = sort_key a_priority hopsToPing
           in \<lparr>skippedHops = skipped,
               finalHopsToPing = take (maxHopsToProcess cfg) sortedHops,
               limitedHops = drop (maxHopsToProcess cfg) sortedHops\<rparr>
         else \<lparr>skippedHops = skipped, finalHopsToPing = hopsToPing, limitedHops = []\<rparr>)"

text \<open>The hops \<open>shouldSkipHop\<close> does not recommend to skip, in discovery order.\<close>

definition keepEligible :: "('r \<Rightarrow> hop_info) \<Rightarrow> config \<Rightarrow> 'r list \<Rightarrow> 'r list" where
  "keepEligible deref cfg validHops =
     filter (\<lambda>r. \<not> d_shouldSkip (shouldSkipHop (deref r) cfg)) validHops"

section \<open>TracerouteService.trace: the parallel probe step\<close>

text \<open>
  The \<open>try\<close> body of one element of \<open>pingPromises\<close> after its \<open>await\<close>:
  the hop is updated from the probe's result and the result is added to its ping
  history. The two display fields \<open>latencyAnalysis\<close> and \<open>networkBehavior\<close>
  set at the same place are left out; computing them reads the hop only.
\<close>

definition applyPingResult :: "nat \<Rightarrow> hop_info \<Rightarrow> ping_result \<Rightarrow> hop_info" where
  "applyPingResult now h pingResult =
     (let avgLat = (if alive pingResult then truthyNumber (time pingResult) else None)
      in addRecentPing now
           (h\<lparr>pingResults := Some [pingResult],
              avgLatency := avgLat,
              isReachable := alive pingResult,
              packetLoss := Some (if alive pingResult then 0 else 100),
              pingCount := Some 1,
              successfulPings := Some (if alive pingResult then 1 else 0)\<rparr>)
           pingResult 1000 (Some 1))"

text \<open>The \<open>catch\<close> of the same element.\<close>

definition pingCatch :: "nat \<Rightarrow> hop_info \<Rightarrow> hop_info" where
  "pingCatch now h =
     addTimeoutPing now
       (h\<lparr>isReachable := False, avgLatency := None, pingCount := Some 0,
          successfulPings := Some 0\<rparr>)
       1000 (Some 1)"

text \<open>
  One element of \<open>pingPromises\<close>: \<open>async (item) => { ... return hop; }\<close> for the
  hop of \<open>item\<close>; \<open>start\<close> is the clock when the batch starts.
\<close>

definition pingOne :: "probe_capability \<Rightarrow> nat \<Rightarrow> hop_info \<Rightarrow> hop_info promise" where
  "pingOne probe start h =
     (case pingHopWithRetry probe (ip h) 1000 of
        Settles t (Fulfilled pingResult) \<Rightarrow>
          Settles t (Fulfilled (applyPingResult (start + t) h pingResult))
      | Settles t (Rejected msg) \<Rightarrow> Settles t (Fulfilled (pingCatch (start + t) h))
      | NeverSettles \<Rightarrow> NeverSettles)"

text \<open>
  \<open>Promise.allSettled(ps)\<close>: settles when every element has settled, with one
  outcome per element in the order of the array; it does not settle while an element
  is pending, and it never rejects.
\<close>

fun allSettled :: "'a promise list \<Rightarrow> 'a outcome list promise" where
  "allSettled [] = Settles 0 (Fulfilled [])"
| "allSettled (NeverSettles # ps) = NeverSettles"
| "allSettled (Settles t r # ps) =
     (case allSettled ps of
        NeverSettles \<Rightarrow> NeverSettles
      | Settles t' (Rejected msg) \<Rightarrow> Settles (max t t') (Rejected msg)
      | Settles t' (Fulfilled rs) \<Rightarrow> Settles (max t t') (Fulfilled (r # rs)))"

text \<open>
  \<open>await Promise.allSettled(finalHopsToPing.map(async (item) => ...))\<close>: all probes
  are started in the same turn, so their settle times are counted from the same start.
\<close>

definition probeBatch :: "probe_capability \<Rightarrow> nat \<Rightarrow> hop_info list \<Rightarrow> hop_info outcome list promise" where
  "probeBatch probe start hs = allSettled (map (pingOne probe start) hs)"

text \<open>
  The probe of a hop failed or timed out: an error or a lost race, or a reply in time
  that reports the host as not alive.
\<close>

definition probeFailed :: "probe_call \<Rightarrow> nat \<Rightarrow> bool" where
  "probeFailed c ms =
     (probeErrorOrTimeout c ms \<or>
      (case c of
         ProbeReturns (Settles t (Fulfilled r)) \<Rightarrow> \<not> alive r
       | _ \<Rightarrow> False))"

text \<open>The last entry of a hop's ping history is a timeout entry.\<close>

definition lastPingIsTimeout :: "hop_info \<Rightarrow> bool" where
  "lastPingIsTimeout h =
     (case pingHistory h of
        None \<Rightarrow> False
      | Some ph \<Rightarrow>
          ph \<noteq> [] \<and>
          (case p_detail (last ph) of None \<Rightarrow> False | Some d \<Rightarrow> p_isTimeout d) \<and>
          \<not> p_isReachable (last ph))"

section \<open>HopProcessor: processHop and pingHop\<close>

text \<open>
  An async function whose timing does not matter is described by how its promise ends:
  \<open>Some (Fulfilled x)\<close>, \<open>Some (Rejected msg)\<close>, or \<open>None\<close> when it never
  settles.
\<close>

type_synonym 'a settled = "'a outcome option"

text \<open>
  A hop as the discovery library emits it: \<open>{ hop, ip, rtt1 }\<close>. \<open>rh_ip\<close> is
  the address string (\<open>'*'\<close> for a silent hop), \<open>rh_rtt1\<close> the number
  \<open>parseFloat\<close> reads from \<open>rtt1\<close>, \<open>None\<close> for \<open>'*'\<close>.
\<close>

record raw_hop =
  rh_hop :: nat
  rh_ip :: "string option"
  rh_rtt1 :: "real option"

text \<open>
  The \<open>rawData\<close> of a hop event: an object; a string, given by what
  \<open>JSON.parse\<close> makes of it (\<open>None\<close>: it throws a \<open>SyntaxError\<close>); or
  \<open>null\<close>/\<open>undefined\<close>, on which reading \<open>hop.hop\<close> throws a
  \<open>TypeError\<close>.
\<close>

datatype raw_data = RawObject raw_hop | RawJson "raw_hop option" | RawNullish

definition parseHopData :: "raw_data \<Rightarrow> string + raw_hop" where
  "parseHopData d =
     (case d of
        RawObject r \<Rightarrow> Inr r
      | RawJson (Some r) \<Rightarrow> Inr r
      | RawJson None \<Rightarrow> Inl ''Unexpected token in JSON''
      | RawNullish \<Rightarrow> Inl ''Cannot read properties of null (reading hop)'')"

text \<open>\<open>`${hop.hop}_${hop.ip || 'unknown'}`\<close>\<close>

definition rawHopKey :: "raw_hop \<Rightarrow> string" where
  "rawHopKey r =
     natToString (rh_hop r) @ ''_'' @
     (case rh_ip r of None \<Rightarrow> ''unknown'' | Some a \<Rightarrow> if a = [] then ''unknown'' else a)"

text \<open>
  The reverse-DNS capability behind \<open>resolveHostnameWithTimeout(ip, timeoutMs)\<close>:
  the first host name, or \<open>None\<close> when the list is empty, the lookup fails or the
  timeout wins (\<open>processHop\<close> catches the rejection and keeps \<open>null\<close>).
\<close>

type_synonym dns_capability = "string \<Rightarrow> int \<Rightarrow> string option"

text \<open>
  \<open>pingHop(hopInfo)\<close>: one probe with a 300 ms timeout, folded into the hop.
  \<open>pingResults\<close> holds the result object (here a one-element list, as in
  \<open>trace\<close>). \<open>None\<close>: the awaited probe never settles.
\<close>

definition pingHop :: "probe_capability \<Rightarrow> nat \<Rightarrow> hop_info \<Rightarrow> hop_info option" where
  "pingHop probe now hopInfo =
     (case pingHopWithRetry probe (ip hopInfo) 300 of
        Settles t (Fulfilled pingResult) \<Rightarrow>
          Some (addRecentPing (now + t)
                  (hopInfo\<lparr>pingResults := Some [pingResult],
                           isReachable := alive pingResult,
                           avgLatency := time pingResult,
                           packetLoss := res_packetLoss pingResult\<rparr>)
                  pingResult 300 None)
      | Settles t (Rejected msg) \<Rightarrow>
          Some (addRecentPing (now + t)
                  (hopInfo\<lparr>pingResults := Some [failedPing msg], isReachable := False\<rparr>)
                  \<lparr>alive = False, time = None, error = None, res_packetLoss = None\<rparr> 300 None)
      | NeverSettles \<Rightarrow> None)"

text \<open>The ping counters of the hop processor: \<open>hopPingCounters\<close>.\<close>

type_synonym ping_counters = "(string \<times> nat) list"

text \<open>
  \<open>processHop(hopData, config, runNumber, sessionId, pingImmediately)\<close>; \<open>now\<close>
  is \<open>Date.now()\<close>. Its \<open>catch\<close> rethrows, so a malformed \<open>hopData\<close>
  rejects the call.
\<close>

definition processHop ::
  "dns_capability \<Rightarrow> probe_capability \<Rightarrow> config \<Rightarrow> nat option \<Rightarrow> string option \<Rightarrow> bool \<Rightarrow> nat
     \<Rightarrow> ping_counters \<Rightarrow> raw_data \<Rightarrow> (hop_info \<times> ping_counters) settled" where
  "processHop dns probe cfg runNo sid pingImmediately now counters hopData =
     (case parseHopData hopData of
        Inl msg \<Rightarrow> Some (Rejected msg)
      | Inr r \<Rightarrow>
          let key = rawHopKey r;
              cnt = (case map_of counters key of None \<Rightarrow> 0 | Some c \<Rightarrow> c) + 1;
              counters' = AList.update key cnt counters;
              hopInfo =
                \<lparr>hop = rh_hop r,
                 ip = (if rh_ip r = Some ''*'' then None else rh_ip r),
                 hostname = None,
                 times = (case rh_rtt1 r of None \<Rightarrow> [] | Some x \<Rightarrow> [x]),
                 pingResults = None,
                 isReachable = False,
                 avgLatency = None,
                 packetLoss = None,
                 pingCount = (if continuousPing cfg then Some cnt else None),
                 hopKey = key,
                 runNumber = runNo,
                 sessionId = sid,
                 timestamp = now,
                 successfulPings = None,
                 pingHistory = None,
                 history = None\<rparr>;
              hasIp = (case ip hopInfo of None \<Rightarrow> False | Some a \<Rightarrow> a \<noteq> []);
              h1 = (if hasIp \<and> resolveHosts cfg
                    then hopInfo\<lparr>hostname :=
                           dns (case ip hopInfo of None \<Rightarrow> [] | Some a \<Rightarrow> a)
                               (if hostnameTimeout cfg = 0 then 5000 else hostnameTimeout cfg)\<rparr>
                    else hopInfo)
          in if pingImmediately \<and> pingHops cfg \<and> hasIp
             then (case pingHop probe now h1 of
                     None \<Rightarrow> None
                   | Some h2 \<Rightarrow> Some (Fulfilled (h2, counters')))
             else Some (Fulfilled (h1, counters')))"

section \<open>TracerouteExecutor.execute\<close>

text \<open>
  What one run of the external discovery process does: starting it throws, or it emits
  a sequence of events. \<open>TimerFired\<close> is the executor's own overall timer, set only
  when \<open>timeout > 0\<close>.
\<close>

datatype tracer_event =
  OnPid nat | OnDestination string | OnHop raw_data | OnClose int | OnError string | TimerFired

record tracer_run =
  startThrows :: "string option"
  events :: "tracer_event list"

record exec_result =
  e_success :: bool
  e_error :: "string option"
  e_target :: string
  e_ipAddress :: "string option"
  e_rawHops :: "raw_data list"
  e_totalHops :: nat
  e_pid :: "nat option"
  e_exitCode :: "int option"

text \<open>\<open>{ success: false, error: msg }\<close>\<close>

definition execFailure :: "string \<Rightarrow> exec_result" where
  "execFailure msg =
     \<lparr>e_success = False, e_error = Some msg, e_target = [], e_ipAddress = None,
      e_rawHops = [], e_totalHops = 0, e_pid = None, e_exitCode = None\<rparr>"

text \<open>
  What the executor passes to its \<open>onHopUpdate\<close> callback: a hop event with its
  raw data and the running count, or the final \<open>complete\<close> event.
\<close>

datatype exec_update = HopUpdate raw_data nat | CompleteUpdate exec_result

text \<open>
  The local variables of one \<open>execute\<close> call, the updates sent to the callback so
  far and the state of the promise it returned.
\<close>

record exec_state =
  x_hops :: "raw_data list"
  x_destination :: "string option"
  x_pid :: "nat option"
  x_isCompleted :: bool
  x_updates :: "exec_update list"
  x_settled :: "exec_result settled"

definition intToString :: "int \<Rightarrow> string" where
  "intToString i = (if i < 0 then ''-'' @ natToString (nat (- i)) else natToString (nat i))"

text \<open>
  The event handlers of \<open>execute\<close>. On \<open>close\<close> with a non-zero exit code and
  no hop, on \<open>error\<close> and on its timer the executor \<^emph>\<open>resolves\<close> its promise
  with \<open>{ success: false, error }\<close> and sends no \<open>complete\<close> update.
\<close>

fun executeEvent :: "config \<Rightarrow> exec_state \<Rightarrow> tracer_event \<Rightarrow> exec_state" where
  "executeEvent cfg st (OnPid n) = st\<lparr>x_pid := Some n\<rparr>"
| "executeEvent cfg st (OnDestination d) = st\<lparr>x_destination := Some d\<rparr>"
| "executeEvent cfg st (OnHop d) =
     st\<lparr>x_updates := x_updates st @ [HopUpdate d (length (x_hops st) + 1)],
        x_hops := x_hops st @ [d]\<rparr>"
| "executeEvent cfg st (OnClose code) =
     (if x_isCompleted st then st
      else if code = 0 \<or> x_hops st \<noteq> []
      then
        let result = \<lparr>e_success = True, e_error = None, e_target = target cfg,
                       e_ipAddress = x_destination st, e_rawHops = x_hops st,
                       e_totalHops = length (x_hops st), e_pid = x_pid st,
                       e_exitCode = Some code\<rparr>
        in st\<lparr>x_isCompleted := True,
              x_updates := x_updates st @ [CompleteUpdate result],
              x_settled := Some (Fulfilled result)\<rparr>
      else st\<lparr>x_isCompleted := True,
              x_settled := Some (Fulfilled (execFailure
                 (''Traceroute failed with exit code '' @ intToString code)))\<rparr>)"
| "executeEvent cfg st (OnError msg) =
     (if x_isCompleted st then st
      else st\<lparr>x_isCompleted := True,
              x_settled := Some (Fulfilled (execFailure
                 (if msg = [] then ''Traceroute failed'' else msg)))\<rparr>)"
| "executeEvent cfg st TimerFired =
     (if timeout cfg > 0 \<and> \<not> x_isCompleted st
      then st\<lparr>x_isCompleted := True,
              x_settled := Some (Fulfilled (execFailure ''Traceroute operation timed out''))\<rparr>
      else st)"

text \<open>
  \<open>execute(config, onHopUpdate)\<close>: the updates it sends to the callback, in order,
  and how its promise ends. It rejects only when starting the process throws.
\<close>

definition execute :: "config \<Rightarrow> tracer_run \<Rightarrow> exec_update list \<times> exec_result settled" where
  "execute cfg run =
     (if target cfg = [] then ([], Some (Fulfilled (execFailure ''Target is required'')))
      else case startThrows run of
             Some msg \<Rightarrow> ([], Some (Rejected msg))
           | None \<Rightarrow>
               let st = foldl (executeEvent cfg)
                          \<lparr>x_hops = [], x_destination = None, x_pid = None,
                           x_isCompleted = False, x_updates = [], x_settled = None\<rparr>
                          (events run)
               in (x_updates st, x_settled st))"

section \<open>TracerouteConfig.validateConfig\<close>

text \<open>
  The configuration object a caller passes: every property may be absent
  (\<open>None\<close>), and then takes its default.
\<close>

record raw_config =
  rc_target :: "string option"
  rc_maxHops :: "int option"
  rc_timeout :: "int option"
  rc_protocol :: "string option"
  rc_port :: "int option"
  rc_resolveHosts :: "bool option"
  rc_hostnameTimeout :: "int option"
  rc_pingHops :: "bool option"
  rc_realTime :: "bool option"
  rc_interval :: "int option"
  rc_skipSlowHops :: "bool option"
  rc_slowHopThreshold :: "int option"
  rc_skipPacketLoss :: "bool option"
  rc_prioritizeFastHops :: "bool option"
  rc_maxHopsToProcess :: "int option"

definition orDefault :: "'a option \<Rightarrow> 'a \<Rightarrow> 'a" where
  "orDefault v d = (case v of None \<Rightarrow> d | Some x \<Rightarrow> x)"

definition isSpaceChar :: "char \<Rightarrow> bool" where
  "isSpaceChar c = (c \<in> set [CHR '' '', CHR 0x09, CHR 0x0A, CHR 0x0B, CHR 0x0C, CHR 0x0D])"

text \<open>\<open>String.prototype.trim\<close>\<close>

definition jsTrim :: "string \<Rightarrow> string" where
  "jsTrim s = rev (dropWhile isSpaceChar (rev (dropWhile isSpaceChar s)))"

text \<open>\<open>validateConfig(config)\<close>: \<open>Inl msg\<close> is \<open>throw new Error(msg)\<close>.\<close>

definition validateConfig :: "raw_config \<Rightarrow> string + config" where
  "validateConfig c =
     (let maxHops' = orDefault (rc_maxHops c) 30;
          timeout' = orDefault (rc_timeout c) 0;
          protocol' = orDefault (rc_protocol c) ''icmp'';
          hostnameTimeout' = orDefault (rc_hostnameTimeout c) 5000;
          interval' = orDefault (rc_interval c) 1000;
          maxHopsToProcess' = orDefault (rc_maxHopsToProcess c) 15
      in if rc_target c = None \<or> rc_target c = Some []
           then Inl ''Target is required and must be a string''
         else if maxHops' < 1 \<or> maxHops' > 64
           then Inl ''Max hops must be between 1 and 64''
         else if timeout' < 0
           then Inl ''Timeout must be non-negative''
         else if hostnameTimeout' < 1000 \<or> hostnameTimeout' > 30000
           then Inl ''Hostname timeout must be between 1000 and 30000 ms''
         else if maxHopsToProcess' < 1 \<or> maxHopsToProcess' > maxHops'
           then Inl (''Max hops to process must be between 1 and '' @ intToString maxHops')
         else if interval' < 1000 \<or> interval' > 60000
           then Inl ''Interval must be between 1000 and 60000 ms''
         else if protocol' \<notin> set [''icmp'', ''udp'', ''tcp'']
           then Inl ''Protocol must be one of: icmp, udp, tcp''
         else if (protocol' = ''tcp'' \<or> protocol' = ''udp'') \<and>
                 (case rc_port c of None \<Rightarrow> False
                  | Some p \<Rightarrow> p \<noteq> 0 \<and> (p < 1 \<or> p > 65535))
           then Inl ''Port must be between 1 and 65535''
         else Inr
           \<lparr>target = jsTrim (orDefault (rc_target c) []),
            maxHops = maxHops',
            timeout = timeout',
            protocol = protocol',
            port = (case rc_port c of None \<Rightarrow> None | Some p \<Rightarrow> if p = 0 then None else Some p),
            resolveHosts = orDefault (rc_resolveHosts c) True,
            hostnameTimeout = hostnameTimeout',
            pingHops = orDefault (rc_pingHops c) True,
            realTime = orDefault (rc_realTime c) True,
            interval = interval',
            skipSlowHops = orDefault (rc_skipSlowHops c) True,
            slowHopThreshold = orDefault (rc_slowHopThreshold c) 50,
            skipPacketLoss = orDefault (rc_skipPacketLoss c) True,
            prioritizeFastHops = orDefault (rc_prioritizeFastHops c) True,
            maxHopsToProcess = nat maxHopsToProcess',
            continuousPing = False\<rparr>)"

section \<open>TracerouteService.trace\<close>

text \<open>
  \<open>resolveTarget(target)\<close> as a capability (the address-literal test and
  \<open>dns.lookup\<close>): the resolved target, or \<open>Inl msg\<close> when it throws.
\<close>

record resolved_target =
  rt_ip :: string
  rt_hostname :: "string option"

type_synonym resolve_capability = "string \<Rightarrow> string + resolved_target"

record capabilities =
  cap_resolve :: resolve_capability
  cap_dns :: dns_capability
  cap_probe :: probe_capability

text \<open>The result object of \<open>trace\<close>, without its \<open>statistics\<close>.\<close>

record trace_result =
  t_success :: bool
  t_error :: "string option"
  t_target :: string
  t_ipAddress :: "string option"
  t_hops :: "hop_info list"
  t_totalHops :: nat
  t_pid :: "nat option"

definition traceFailure :: "string \<Rightarrow> trace_result" where
  "traceFailure msg =
     \<lparr>t_success = False, t_error = Some msg, t_target = [], t_ipAddress = None,
      t_hops = [], t_totalHops = 0, t_pid = None\<rparr>"

text \<open>
  The \<open>hops.forEach\<close> after the probes: a hop without ping history gets its
  current latency as an entry, and every hop with an address that is not reachable
  gets a timeout entry.
\<close>

definition backfillHop :: "nat \<Rightarrow> hop_info \<Rightarrow> hop_info" where
  "backfillHop now h =
     (let h1 = (if pingHistory h = None \<or> pingHistory h = Some []
                then populatePingHistory now h else h)
      in if (case ip h1 of
               None \<Rightarrow> False
             | Some a \<Rightarrow> a \<noteq> [] \<and> a \<noteq> ''Request timed out.'' \<and> a \<noteq> ''*'')
            \<and> \<not> isReachable h1
         then addTimeoutPing now h1 1000 (Some 1)
         else h1)"

text \<open>
  A fulfilled element of the batch has updated the hop object it refers to; here the
  updated object is written back at its position in \<open>hops\<close>.
\<close>

definition writeBack :: "hop_info list \<Rightarrow> nat \<times> hop_info outcome \<Rightarrow> hop_info list" where
  "writeBack hs e =
     (case snd e of Fulfilled h' \<Rightarrow> hs[fst e := h'] | Rejected msg \<Rightarrow> hs)"

text \<open>
  The body of the \<open>complete\<close> branch up to the statistics: collect the valid hops
  (by position in \<open>hops\<close>), select, probe in parallel, back-fill. \<open>None\<close>: the
  awaited batch does not deliver its results (it never does otherwise, see C1).
\<close>

definition completeRun :: "probe_capability \<Rightarrow> config \<Rightarrow> nat \<Rightarrow> hop_info list \<Rightarrow> hop_info list option" where
  "completeRun probe cfg now hops =
     (let validHops = filter (\<lambda>i. isValidHop (hops ! i)) [0 ..< length hops]
      in if pingHops cfg \<and> validHops \<noteq> []
         then
           let finalRefs = map a_hop (finalHopsToPing (selectHops (\<lambda>i. hops ! i) cfg validHops))
           in case probeBatch probe now (map (\<lambda>i. hops ! i) finalRefs) of
                Settles T (Fulfilled pingResults') \<Rightarrow>
                  Some (map (backfillHop (now + T))
                          (foldl writeBack hops (zip finalRefs pingResults')))
              | Settles T (Rejected msg) \<Rightarrow> None
              | NeverSettles \<Rightarrow> None
         else Some hops)"

text \<open>
  The variables of the promise executor inside \<open>trace\<close>, the ping counters of the
  hop processor (taken empty at the start; they only feed \<open>pingCount\<close>), and the
  state of the promise \<open>trace\<close> returns.
\<close>

record trace_state =
  ts_hops :: "hop_info list"
  ts_isCompleted :: bool
  ts_counters :: ping_counters
  ts_settled :: "trace_result settled"

text \<open>\<open>resolve\<close> and \<open>reject\<close> have no effect on a settled promise.\<close>

definition settle :: "'a settled \<Rightarrow> 'a outcome \<Rightarrow> 'a settled" where
  "settle p r = (case p of None \<Rightarrow> Some r | Some r' \<Rightarrow> Some r')"

text \<open>
  The callback \<open>trace\<close> passes to \<open>execute\<close>, run on one update (no
  \<open>onHopUpdate\<close> listener); each invocation is taken to finish before the next
  update arrives. A hop is processed without pinging; when
  \<open>processHop\<close> throws, the \<open>catch\<close> of the callback \<^emph>\<open>rejects\<close> the promise
  of \<open>trace\<close>. A throw after \<open>isCompleted\<close> was set leaves the promise as it is.
\<close>

definition handleUpdate ::
  "capabilities \<Rightarrow> config \<Rightarrow> resolved_target \<Rightarrow> nat \<Rightarrow> trace_state \<Rightarrow> exec_update \<Rightarrow> trace_state" where
  "handleUpdate caps cfg resolvedTarget now st u =
     (case u of
        HopUpdate d n \<Rightarrow>
          (case processHop (cap_dns caps) (cap_probe caps) cfg None None False now
                  (ts_counters st) d of
             Some (Fulfilled (h, counters')) \<Rightarrow>
               st\<lparr>ts_hops := ts_hops st @ [h], ts_counters := counters'\<rparr>
           | Some (Rejected msg) \<Rightarrow>
               if ts_isCompleted st then st
               else st\<lparr>ts_isCompleted := True,
                       ts_settled := settle (ts_settled st) (Rejected msg)\<rparr>
           | None \<Rightarrow> st)
      | CompleteUpdate res \<Rightarrow>
          if ts_isCompleted st then st
          else
            (case completeRun (cap_probe caps) cfg now (ts_hops st) of
               None \<Rightarrow> st\<lparr>ts_isCompleted := True\<rparr>
             | Some hops' \<Rightarrow>
                 st\<lparr>ts_isCompleted := True,
                    ts_hops := hops',
                    ts_settled := settle (ts_settled st)
                      (Fulfilled
                        \<lparr>t_success = True, t_error = None, t_target = target cfg,
                         t_ipAddress = (case e_ipAddress res of
                                          None \<Rightarrow> Some (rt_ip resolvedTarget)
                                        | Some d \<Rightarrow> if d = [] then Some (rt_ip resolvedTarget)
                                                    else Some d),
                         t_hops = hops', t_totalHops = length hops', t_pid = e_pid res\<rparr>)\<rparr>))"

text \<open>
  \<open>trace(config)\<close>. Only \<open>validateConfig\<close> and the awaited
  \<open>resolveTarget\<close> run under the outer \<open>try\<close>; the function then returns the
  inner promise, so the promise of \<open>trace\<close> ends as that one does. The only
  handler on the promise of \<open>execute\<close> is \<open>.catch\<close>: nothing runs when it is
  fulfilled.
\<close>

definition trace :: "capabilities \<Rightarrow> nat \<Rightarrow> raw_config \<Rightarrow> tracer_run \<Rightarrow> trace_result settled" where
  "trace caps now rawConfig run =
     (case validateConfig rawConfig of
        Inl msg \<Rightarrow> Some (Fulfilled (traceFailure msg))
      | Inr validatedConfig \<Rightarrow>
          (case cap_resolve caps (target validatedConfig) of
             Inl msg \<Rightarrow> Some (Fulfilled (traceFailure msg))
           | Inr resolvedTarget \<Rightarrow>
               let st = foldl (handleUpdate caps validatedConfig resolvedTarget now)
                          \<lparr>ts_hops = [], ts_isCompleted = False, ts_counters = [],
                           ts_settled = None\<rparr>
                          (fst (execute validatedConfig run))
               in case snd (execute validatedConfig run) of
                    Some (Rejected msg) \<Rightarrow>
                      if ts_isCompleted st then ts_settled st
                      else settle (ts_settled st)
                             (Fulfilled (traceFailure
                                (if msg = [] then ''Traceroute failed'' else msg)))
                  | Some (Fulfilled res) \<Rightarrow> ts_settled st
                  | None \<Rightarrow> ts_settled st))"

section \<open>ContinuousTracerouteManager\<close>

text \<open>
  The object \<open>startContinuousSession\<close> stores in \<open>activeSessions\<close>. Its
  \<open>isRunning\<close> and \<open>runCount\<close> properties are initialised from the local
  variables of the same name, which copies their values. (\<open>allHops\<close> is the
  same \<open>Map\<close> object as the local variable and is kept with the local variables
  below; \<open>currentRunPromise\<close> is \<open>null\<close>.)
\<close>

record session =
  s_target :: string
  s_config :: config
  s_isRunning :: bool
  s_runCount :: nat
  s_startTime :: nat

text \<open>
  The local variables of one \<open>startContinuousSession\<close> call, which the closures
  \<open>runTraceroute\<close> and \<open>stop\<close> of that session read and write.
\<close>

record run_closure =
  c_config :: config
  c_isRunning :: bool
  c_runCount :: nat
  c_allHops :: hop_map
  c_startTime :: nat

datatype complete_type = run_complete | run_error

text \<open>What \<open>onComplete\<close> is called with (without statistics and hop list).\<close>

record complete_event =
  ce_type :: complete_type
  ce_sessionId :: string
  ce_runNumber :: nat
  ce_result :: "exec_result option"
  ce_error :: "string option"

text \<open>
  The state of the manager and of the two objects it shares with the service: the
  session registry; the local variables of every session started (by session id);
  the executor's \<open>activeProcesses\<close> (process ids) and the processes whose tracer
  \<open>cleanupProcess\<close> has asked to stop; the pending \<open>setTimeout\<close> calls
  (session id and delay); the calls of \<open>onComplete\<close> so far; the hop processor's
  ping counters.
\<close>

record manager =
  activeSessions :: "(string \<times> session) list"
  closures :: "(string \<times> run_closure) list"
  activeProcesses :: "string list"
  stoppedTracers :: "string list"
  pendingTimers :: "(string \<times> int) list"
  completeEvents :: "complete_event list"
  hopPingCounters :: ping_counters

definition emptyManager :: manager where
  "emptyManager =
     \<lparr>activeSessions = [], closures = [], activeProcesses = [], stoppedTracers = [],
      pendingTimers = [], completeEvents = [], hopPingCounters = []\<rparr>"

text \<open>
  \<open>runTraceroute\<close> from its start up to the \<open>await\<close>: the guard, the
  increment of the local \<open>runCount\<close>, and the synchronous part of \<open>execute\<close>,
  which registers the discovery process under a fresh process id \<open>pid\<close> (and
  cleans it up again when starting it throws).
\<close>

definition runTracerouteBegin :: "string \<Rightarrow> string \<Rightarrow> tracer_run \<Rightarrow> manager \<Rightarrow> manager" where
  "runTracerouteBegin sid pid run m =
     (case map_of (closures m) sid of
        None \<Rightarrow> m
      | Some c \<Rightarrow>
          if \<not> c_isRunning c then m
          else
            let m1 = m\<lparr>closures := AList.update sid (c\<lparr>c_runCount := c_runCount c + 1\<rparr>)
                                      (closures m)\<rparr>
            in if target (c_config c) = [] then m1
               else case startThrows run of
                      Some msg \<Rightarrow> m1\<lparr>stoppedTracers := stoppedTracers m1 @ [pid]\<rparr>
                    | None \<Rightarrow> m1\<lparr>activeProcesses := activeProcesses m1 @ [pid]\<rparr>)"

text \<open>
  The callback \<open>runTraceroute\<close> passes to \<open>execute\<close>, run on one update: a hop
  is processed (with an immediate ping) and merged into \<open>allHops\<close>. The callback is
  not awaited by the executor; when it rejects, nothing is updated. Each invocation is
  taken to finish before the next update arrives, and \<open>onHopUpdate\<close> and
  \<open>onComplete\<close> are taken to be listeners that return normally.
\<close>

definition hopCallback ::
  "dns_capability \<Rightarrow> probe_capability \<Rightarrow> config \<Rightarrow> nat \<Rightarrow> string \<Rightarrow> nat
     \<Rightarrow> hop_map \<times> ping_counters \<Rightarrow> exec_update \<Rightarrow> hop_map \<times> ping_counters" where
  "hopCallback dns probe cfg runNo sid now st u =
     (case u of
        CompleteUpdate res \<Rightarrow> st
      | HopUpdate d n \<Rightarrow>
          (case processHop dns probe cfg (Some runNo) (Some sid) True now (snd st) d of
             Some (Fulfilled (processedHop, counters')) \<Rightarrow>
               (case updateHopHistory processedHop (fst st) of
                  Inr (updatedHop, allHops') \<Rightarrow> (allHops', counters')
                | Inl msg \<Rightarrow> (fst st, counters'))
           | Some (Rejected msg) \<Rightarrow> st
           | None \<Rightarrow> st))"

text \<open>
  The rest of \<open>runTraceroute\<close>, once the discovery process has delivered its
  events: the hop callbacks, the executor's clean-up when it completes, then, when the
  awaited promise settles, \<open>onComplete\<close> (\<open>run_complete\<close> when it is fulfilled,
  \<open>run_error\<close> from the \<open>catch\<close> when it is rejected) and the next
  \<open>setTimeout\<close> if the local \<open>isRunning\<close> still holds.
\<close>

definition runTracerouteEnd ::
  "dns_capability \<Rightarrow> probe_capability \<Rightarrow> nat \<Rightarrow> string \<Rightarrow> string \<Rightarrow> tracer_run \<Rightarrow> manager \<Rightarrow> manager" where
  "runTracerouteEnd dns probe now sid pid run m =
     (case map_of (closures m) sid of
        None \<Rightarrow> m
      | Some c \<Rightarrow>
          let cfg = c_config c;
              upd = fst (execute cfg run);
              settled = snd (execute cfg run);
              st = foldl (hopCallback dns probe cfg (c_runCount c) sid now)
                     (c_allHops c, hopPingCounters m) upd;
              m1 = m\<lparr>closures := AList.update sid (c\<lparr>c_allHops := fst st\<rparr>) (closures m),
                     hopPingCounters := snd st,
                     activeProcesses := (if settled = None then activeProcesses m
                                         else removeAll pid (activeProcesses m)),
                     stoppedTracers := (if settled \<noteq> None \<and> pid \<in> set (activeProcesses m)
                                        then stoppedTracers m @ [pid]
                                        else stoppedTracers m)\<rparr>
          in case settled of
               None \<Rightarrow> m1
             | Some r \<Rightarrow>
                 let ev = (case r of
                             Fulfilled result \<Rightarrow>
                               \<lparr>ce_type = run_complete, ce_sessionId = sid,
                                ce_runNumber = c_runCount c, ce_result = Some result,
                                ce_error = None\<rparr>
                           | Rejected msg \<Rightarrow>
                               \<lparr>ce_type = run_error, ce_sessionId = sid,
                                ce_runNumber = c_runCount c, ce_result = None,
                                ce_error = Some msg\<rparr>);
                     m2 = m1\<lparr>completeEvents := completeEvents m1 @ [ev]\<rparr>
                 in if c_isRunning c
                    then m2\<lparr>pendingTimers := pendingTimers m2 @ [(sid, interval cfg)]\<rparr>
                    else m2)"

text \<open>A pending timer of the session fires: it is consumed and \<open>runTraceroute\<close> starts.\<close>

definition fireTimer :: "string \<Rightarrow> string \<Rightarrow> tracer_run \<Rightarrow> manager \<Rightarrow> manager" where
  "fireTimer sid pid run m =
     (if sid \<in> fst ` set (pendingTimers m)
      then runTracerouteBegin sid pid run (m\<lparr>pendingTimers := AList.delete sid (pendingTimers m)\<rparr>)
      else m)"

record start_result =
  sr_success :: bool
  sr_sessionId :: "string option"
  sr_error :: "string option"

text \<open>
  \<open>startContinuousSession(config, onHopUpdate, onComplete)\<close>; \<open>sid\<close> is the
  session id it generates, \<open>now\<close> is \<open>Date.now()\<close>. The first
  \<open>runTraceroute()\<close> call runs up to its \<open>await\<close> before the function returns.
\<close>

definition startContinuousSession ::
  "config \<Rightarrow> string \<Rightarrow> string \<Rightarrow> nat \<Rightarrow> tracer_run \<Rightarrow> manager \<Rightarrow> start_result \<times> manager" where
  "startContinuousSession cfg sid pid now run m =
     (if target cfg = []
      then (\<lparr>sr_success = False, sr_sessionId = None, sr_error = Some ''Target is required''\<rparr>, m)
      else
        let m1 = m\<lparr>activeSessions :=
                      AList.update sid
                        \<lparr>s_target = target cfg, s_config = cfg, s_isRunning = True,
                         s_runCount = 0, s_startTime = now\<rparr>
                        (activeSessions m),
                    closures :=
                      AList.update sid
                        \<lparr>c_config = cfg, c_isRunning = True, c_runCount = 0, c_allHops = [],
                         c_startTime = now\<rparr>
                        (closures m)\<rparr>
        in (\<lparr>sr_success = True, sr_sessionId = Some sid, sr_error = None\<rparr>,
            runTracerouteBegin sid pid run m1))"

record stop_result =
  st_success :: bool
  st_message :: string

text \<open>
  \<open>stopContinuousSession(sessionId)\<close>. \<open>session.stop()\<close> sets the local
  \<open>isRunning\<close> of that session to \<open>false\<close> and deletes the session from the
  registry; the caller deletes it once more. Nothing in it refers to the executor.
\<close>

definition stopContinuousSession :: "string \<Rightarrow> manager \<Rightarrow> stop_result \<times> manager" where
  "stopContinuousSession sid m =
     (case map_of (activeSessions m) sid of
        Some session \<Rightarrow>
          (\<lparr>st_success = True, st_message = ''Continuous traceroute stopped''\<rparr>,
           m\<lparr>closures := (case map_of (closures m) sid of
                             None \<Rightarrow> closures m
                           | Some c \<Rightarrow> AList.update sid (c\<lparr>c_isRunning := False\<rparr>) (closures m)),
              activeSessions := AList.delete sid (AList.delete sid (activeSessions m))\<rparr>)
      | None \<Rightarrow>
          (\<lparr>st_success = True, st_message = ''Session already stopped or not found''\<rparr>,
           m\<lparr>activeSessions := AList.delete sid (activeSessions m)\<rparr>))"

text \<open>An element of what \<open>getActiveSessions()\<close> returns.\<close>

record session_info =
  si_sessionId :: string
  si_target :: string
  si_runCount :: nat
  si_startTime :: nat
  si_duration :: nat
  si_isRunning :: bool

definition getActiveSessions :: "nat \<Rightarrow> manager \<Rightarrow> session_info list" where
  "getActiveSessions now m =
     map (\<lambda>e. \<lparr>si_sessionId = fst e,
               si_target = s_target (snd e),
               si_runCount = s_runCount (snd e),
               si_startTime = s_startTime (snd e),
               si_duration = now - s_startTime (snd e),
               si_isRunning = s_isRunning (snd e)\<rparr>)
       (activeSessions m)"

section \<open>Notions used in the statements, and example inputs\<close>

text \<open>\<open>hop.avgLatency || 0\<close>, the latency \<open>getHopPriority\<close> ranks by.\<close>

definition latencyOrZero :: "hop_info \<Rightarrow> real" where
  "latencyOrZero h = (case avgLatency h of None \<Rightarrow> 0 | Some l \<Rightarrow> l)"

text \<open>
  Example input: a hop object with the given index, address, probe latency and packet
  loss, and no ping history yet.
\<close>

definition sampleHop :: "nat \<Rightarrow> string \<Rightarrow> real option \<Rightarrow> real option \<Rightarrow> hop_info" where
  "sampleHop n a l pl =
     \<lparr>hop = n, ip = Some a, hostname = None, times = [], pingResults = None,
      isReachable = (l \<noteq> None), avgLatency = l, packetLoss = pl, pingCount = None,
      hopKey = [], runNumber = None, sessionId = None, timestamp = 0,
      successfulPings = None, pingHistory = None, history = None\<rparr>"

text \<open>
  Example input: twelve observations of hop 3 at 10.0.0.3 (runs 1 to 12, probe latency
  5 ms), as twelve ticks of a session deliver them.
\<close>

definition exampleRuns :: "hop_info list" where
  "exampleRuns =
     map (\<lambda>n. (sampleHop 3 ''10.0.0.3'' (Some 5) None)\<lparr>runNumber := Some n, timestamp := 100 * n\<rparr>)
       [1, 2, 3, 4, 5, 6, 7, 8, 9, 10, 11, 12]"

text \<open>
  Example input: the default configuration of \<open>TracerouteConfig\<close> as
  \<open>validateConfig\<close> returns it for the target 192.0.2.1, and the same with
  \<open>maxHopsToProcess = 1\<close>.
\<close>

definition exampleConfig :: config where
  "exampleConfig =
     \<lparr>target = ''192.0.2.1'', maxHops = 30, timeout = 0, protocol = ''icmp'', port = None,
      resolveHosts = True, hostnameTimeout = 5000, pingHops = True, realTime = True,
      interval = 1000, skipSlowHops = True, slowHopThreshold = 50, skipPacketLoss = True,
      prioritizeFastHops = True, maxHopsToProcess = 15, continuousPing = False\<rparr>"

text \<open>
  Example input: five valid hops with probe latencies 15, 60, 3, 200 and 7 ms, in
  discovery order.
\<close>

definition exampleHops :: "hop_info list" where
  "exampleHops =
     [sampleHop 1 ''10.0.0.1'' (Some 15) None, sampleHop 2 ''10.0.0.2'' (Some 60) None,
      sampleHop 3 ''10.0.0.3'' (Some 3) None, sampleHop 4 ''10.0.0.4'' (Some 200) None,
      sampleHop 5 ''10.0.0.5'' (Some 7) None]"

text \<open>
  Example input: a caller's configuration that names only the target, and capabilities
  under which the target resolves to itself, no host name is found and the example
  probe below answers.
\<close>

definition exampleRawConfig :: raw_config where
  "exampleRawConfig =
     \<lparr>rc_target = Some ''192.0.2.1'', rc_maxHops = None, rc_timeout = None,
      rc_protocol = None, rc_port = None, rc_resolveHosts = None,
      rc_hostnameTimeout = None, rc_pingHops = None, rc_realTime = None,
      rc_interval = None, rc_skipSlowHops = None, rc_slowHopThreshold = None,
      rc_skipPacketLoss = None, rc_prioritizeFastHops = None,
      rc_maxHopsToProcess = None\<rparr>"

text \<open>
  Example probe capability: the host 10.0.0.2 never answers (the probe hangs), the host
  10.0.0.9 makes the probe reject, every other host answers after 12 ms.
\<close>

definition exampleProbe :: probe_capability where
  "exampleProbe a s =
     (if a = Some ''10.0.0.2'' then ProbeReturns NeverSettles
      else if a = Some ''10.0.0.9'' then ProbeReturns (Settles 5 (Rejected ''EHOSTUNREACH''))
      else ProbeReturns (Settles 12 (Fulfilled
             \<lparr>alive = True, time = Some 12, error = None, res_packetLoss = Some 0\<rparr>)))"

definition exampleCaps :: capabilities where
  "exampleCaps =
     \<lparr>cap_resolve = (\<lambda>t. Inr \<lparr>rt_ip = t, rt_hostname = None\<rparr>),
      cap_dns = (\<lambda>a ms. None),
      cap_probe = exampleProbe\<rparr>"

text \<open>
  Example discovery runs: the process exits with code 1 before any hop; it reports one
  hop event without data and exits; it reports two hops and exits with code 0.
\<close>

definition failedRun :: tracer_run where
  "failedRun = \<lparr>startThrows = None, events = [OnPid 4242, OnClose 1]\<rparr>"

definition malformedRun :: tracer_run where
  "malformedRun = \<lparr>startThrows = None, events = [OnPid 4242, OnHop RawNullish, OnClose 0]\<rparr>"

definition goodRun :: tracer_run where
  "goodRun =
     \<lparr>startThrows = None,
      events = [OnPid 4242,
                OnHop (RawObject \<lparr>rh_hop = 1, rh_ip = Some ''10.0.0.1'', rh_rtt1 = Some 1\<rparr>),
                OnHop (RawObject \<lparr>rh_hop = 2, rh_ip = Some ''10.0.0.2'', rh_rtt1 = None\<rparr>),
                OnDestination ''192.0.2.1'',
                OnClose 0]\<rparr>"

section \<open>TracerouteStatistics.calculateTrend\<close>

datatype trend = insufficient_data | increasing | decreasing | stable

subsection \<open>JavaScript numbers\<close>

text \<open>
  The arithmetic of \<open>calculateTrend\<close> is that of JavaScript numbers, IEEE 754
  binary64 values: \<open>Num x\<close> is the finite number of value \<open>x\<close> (\<open>Num 0\<close> is
  \<open>+0\<close>), \<open>NegZero\<close> is \<open>-0\<close>.
\<close>

datatype jsnum = Num real | NegZero | PosInfinity | NegInfinity | NaN

definition pow2 :: "int \<Rightarrow> real" where
  "pow2 k = (if 0 \<le> k then 2 ^ nat k else 1 / 2 ^ nat (- k))"

text \<open>Rounding to the nearest integer, ties to the even one.\<close>

definition roundEven :: "real \<Rightarrow> int" where
  "roundEven y =
     (if y - of_int \<lfloor>y\<rfloor> < 1 / 2 then \<lfloor>y\<rfloor>
      else if 1 / 2 < y - of_int \<lfloor>y\<rfloor> then \<lfloor>y\<rfloor> + 1
      else if even \<lfloor>y\<rfloor> then \<lfloor>y\<rfloor> else \<lfloor>y\<rfloor> + 1)"

text \<open>The integer \<open>e\<close> with \<open>2^e \<le> x < 2^(e+1)\<close>, for a positive \<open>x\<close>.\<close>

function floorLog2 :: "real \<Rightarrow> int" where
  "floorLog2 x =
     (if x \<le> 0 then 0
      else if x < 1 then floorLog2 (2 * x) - 1
      else if 2 \<le> x then floorLog2 (x / 2) + 1
      else 0)"
  by pat_completeness auto

termination
proof (relation "measure (\<lambda>x. nat \<bar>\<lfloor>log 2 x\<rfloor>\<bar>)")
  show "wf (measure (\<lambda>x. nat \<bar>\<lfloor>log 2 x\<rfloor>\<bar>))" by simp
next
  fix x :: real
  assume a: "\<not> x \<le> 0" "x < 1"
  then have l: "log 2 (2 * x) = 1 + log 2 x" by (simp add: log_mult)
  have "log 2 x < 0" using a by simp
  then have "\<lfloor>log 2 x\<rfloor> \<le> - 1" by (simp add: floor_le_iff)
  moreover have "\<lfloor>log 2 (2 * x)\<rfloor> = 1 + \<lfloor>log 2 x\<rfloor>" unfolding l by simp
  ultimately show "(2 * x, x) \<in> measure (\<lambda>x. nat \<bar>\<lfloor>log 2 x\<rfloor>\<bar>)" by simp
next
  fix x :: real
  assume a: "\<not> x \<le> 0" "\<not> x < 1" "2 \<le> x"
  then have l: "log 2 (x / 2) = log 2 x - 1" by (simp add: log_divide)
  have "1 \<le> log 2 x" using a by (simp add: le_log_iff)
  then have "1 \<le> \<lfloor>log 2 x\<rfloor>" by (simp add: le_floor_iff)
  moreover have "\<lfloor>log 2 (x / 2)\<rfloor> = \<lfloor>log 2 x\<rfloor> - 1" unfolding l by simp
  ultimately show "(x / 2, x) \<in> measure (\<lambda>x. nat \<bar>\<lfloor>log 2 x\<rfloor>\<bar>)" by simp
qed

declare floorLog2.simps [simp del]

text \<open>
  The exponent of the last place of the binary64 values around \<open>x\<close>: a significand
  of 53 bits, and no exponent below that of the subnormal numbers.
\<close>

definition exponentOf :: "real \<Rightarrow> int" where
  "exponentOf x = max (floorLog2 \<bar>x\<bar> - 52) (- 1074)"

definition rnd :: "real \<Rightarrow> real" where
  "rnd x = of_int (roundEven (x / pow2 (exponentOf x))) * pow2 (exponentOf x)"

text \<open>
  The number delivered for the exact, non-zero result \<open>x\<close> of an operation: \<open>x\<close>
  rounded to nearest, ties to even; an infinity when the rounded value is out of range,
  a zero of the sign of \<open>x\<close> when it underflows to zero.
\<close>

definition roundResult :: "real \<Rightarrow> jsnum" where
  "roundResult x =
     (if pow2 1024 \<le> \<bar>rnd x\<bar> then (if 0 < x then PosInfinity else NegInfinity)
      else if rnd x = 0 then (if 0 \<le> x then Num 0 else NegZero)
      else Num (rnd x))"

text \<open>The number denoted by a decimal literal of value \<open>x\<close>, such as \<open>10.2\<close>.\<close>

definition numberLiteral :: "real \<Rightarrow> jsnum" where
  "numberLiteral x = (if x = 0 then Num 0 else roundResult x)"

fun jsNeg :: "jsnum \<Rightarrow> jsnum" where
  "jsNeg (Num x) = (if x = 0 then NegZero else Num (- x))"
| "jsNeg NegZero = Num 0"
| "jsNeg PosInfinity = NegInfinity"
| "jsNeg NegInfinity = PosInfinity"
| "jsNeg NaN = NaN"

text \<open>\<open>a + b\<close>. An exact sum of zero is \<open>+0\<close>, unless both operands are \<open>-0\<close>.\<close>

fun jsAdd :: "jsnum \<Rightarrow> jsnum \<Rightarrow> jsnum" where
  "jsAdd NaN b = NaN"
| "jsAdd a NaN = NaN"
| "jsAdd PosInfinity NegInfinity = NaN"
| "jsAdd NegInfinity PosInfinity = NaN"
| "jsAdd PosInfinity b = PosInfinity"
| "jsAdd a PosInfinity = PosInfinity"
| "jsAdd NegInfinity b = NegInfinity"
| "jsAdd a NegInfinity = NegInfinity"
| "jsAdd NegZero NegZero = NegZero"
| "jsAdd NegZero (Num y) = Num y"
| "jsAdd (Num x) NegZero = Num x"
| "jsAdd (Num x) (Num y) = (if x + y = 0 then Num 0 else roundResult (x + y))"

text \<open>\<open>a - b\<close>\<close>

definition jsSub :: "jsnum \<Rightarrow> jsnum \<Rightarrow> jsnum" where
  "jsSub a b = jsAdd a (jsNeg b)"

fun signBit :: "jsnum \<Rightarrow> bool" where
  "signBit (Num x) = (x < 0)"
| "signBit NegZero = True"
| "signBit PosInfinity = False"
| "signBit NegInfinity = True"
| "signBit NaN = False"

fun isZero :: "jsnum \<Rightarrow> bool" where
  "isZero (Num x) = (x = 0)"
| "isZero NegZero = True"
| "isZero a = False"

fun isInfinite :: "jsnum \<Rightarrow> bool" where
  "isInfinite PosInfinity = True"
| "isInfinite NegInfinity = True"
| "isInfinite a = False"

fun valueOf :: "jsnum \<Rightarrow> real" where
  "valueOf (Num x) = x"
| "valueOf a = 0"

definition signedZero :: "bool \<Rightarrow> jsnum" where
  "signedZero neg = (if neg then NegZero else Num 0)"

definition signedInfinity :: "bool \<Rightarrow> jsnum" where
  "signedInfinity neg = (if neg then NegInfinity else PosInfinity)"

text \<open>
  \<open>a / b\<close>: \<open>NaN\<close> for \<open>0 / 0\<close> and for a quotient of infinities, an infinity
  for a non-zero number divided by a zero, with the sign of the quotient.
\<close>

definition jsDiv :: "jsnum \<Rightarrow> jsnum \<Rightarrow> jsnum" where
  "jsDiv a b =
     (if a = NaN \<or> b = NaN then NaN
      else if isInfinite a then (if isInfinite b then NaN
                                 else signedInfinity (signBit a \<noteq> signBit b))
      else if isInfinite b then signedZero (signBit a \<noteq> signBit b)
      else if isZero b then (if isZero a then NaN
                             else signedInfinity (signBit a \<noteq> signBit b))
      else if isZero a then signedZero (signBit a \<noteq> signBit b)
      else roundResult (valueOf a / valueOf b))"

text \<open>\<open>a * b\<close>\<close>

definition jsMul :: "jsnum \<Rightarrow> jsnum \<Rightarrow> jsnum" where
  "jsMul a b =
     (if a = NaN \<or> b = NaN then NaN
      else if isInfinite a \<or> isInfinite b
           then (if isZero a \<or> isZero b then NaN
                 else signedInfinity (signBit a \<noteq> signBit b))
      else if isZero a \<or> isZero b then signedZero (signBit a \<noteq> signBit b)
      else roundResult (valueOf a * valueOf b))"

text \<open>\<open>a < b\<close>; \<open>a > b\<close> is \<open>jsLess b a\<close>. A comparison with \<open>NaN\<close> is false.\<close>

fun jsLess :: "jsnum \<Rightarrow> jsnum \<Rightarrow> bool" where
  "jsLess NaN b = False"
| "jsLess a NaN = False"
| "jsLess PosInfinity b = False"
| "jsLess a NegInfinity = False"
| "jsLess NegInfinity b = True"
| "jsLess a PosInfinity = True"
| "jsLess a b = (valueOf a < valueOf b)"

subsection \<open>calculateTrend\<close>

text \<open>
  \<open>xs.reduce((a, b) => a + b, 0) / xs.length\<close>, the entries of \<open>xs\<close> being
  numbers. The length of an array is an integer below 4294967296, which is a number.
\<close>

definition average :: "jsnum list \<Rightarrow> jsnum" where
  "average xs = jsDiv (foldl jsAdd (Num 0) xs) (Num (real (length xs)))"

text \<open>
  \<open>calculateTrend(data)\<close>. When the first half's mean is a zero the division yields
  an infinity, or \<open>NaN\<close> for \<open>0 / 0\<close>; \<open>NaN\<close> fails both comparisons.
\<close>

definition calculateTrend :: "jsnum list \<Rightarrow> trend" where
  "calculateTrend data =
     (if length data < 3 then insufficient_data
      else
        let firstHalf = take (length data div 2) data;
            secondHalf = drop (length data div 2) data;
            firstAvg = average firstHalf;
            secondAvg = average secondHalf;
            change = jsMul (jsDiv (jsSub secondAvg firstAvg) firstAvg) (Num 100)
        in if jsLess (Num 5) change then increasing
           else if jsLess change (Num (- 5)) then decreasing
           else stable)"

text \<open>
  The relative change of the second half's mean against the first half's, in percent,
  as \<open>calculateTrend\<close> computes it.
\<close>

definition relativeChange :: "jsnum list \<Rightarrow> jsnum" where
  "relativeChange data =
     jsMul (jsDiv (jsSub (average (drop (length data div 2) data))
                         (average (take (length data div 2) data)))
                  (average (take (length data div 2) data)))
           (Num 100)"

section \<open>Theorems\<close>

subsection \<open>C5: trend classification\<close>

lemma pow2_powr: "pow2 k = 2 powr (of_int k)"
proof (cases "0 \<le> k")
  case True
  then have "2 powr (of_int k) = (2::real) ^ nat k"
    by (metis of_int_of_nat_eq nat_0_le powr_realpow zero_less_numeral of_int_of_nat_eq)
  then show ?thesis using True by (simp add: pow2_def)
next
  case False
  then have k: "of_int k = - real (nat (- k))" by simp
  have "2 powr (of_int k) = 1 / (2::real) ^ nat (- k)"
    unfolding k by (simp add: powr_minus powr_realpow field_simps)
  then show ?thesis using False by (simp add: pow2_def)
qed

lemma pow2_pos: "0 < pow2 k"
  by (simp add: pow2_powr)

lemma floorLog2_log: "0 < x \<Longrightarrow> floorLog2 x = \<lfloor>log 2 x\<rfloor>"
proof (induction x rule: floorLog2.induct)
  case (1 x)
  show ?case
  proof (cases "x < 1")
    case True
    with 1 have "floorLog2 (2 * x) = \<lfloor>log 2 (2 * x)\<rfloor>" by simp
    moreover have "log 2 (2 * x) = 1 + log 2 x" using 1(3) by (simp add: log_mult)
    ultimately show ?thesis using True 1(3) by (subst floorLog2.simps) simp
  next
    case False
    show ?thesis
    proof (cases "2 \<le> x")
      case True
      with 1 False have "floorLog2 (x / 2) = \<lfloor>log 2 (x / 2)\<rfloor>" by simp
      moreover have "log 2 (x / 2) = log 2 x - 1" using 1(3) by (simp add: log_divide)
      ultimately show ?thesis using True False 1(3) by (subst floorLog2.simps) simp
    next
      case F2: False
      have "0 \<le> log 2 x" using False by simp
      moreover have "log 2 x < 1" using F2 1(3) by (simp add: log_less_iff)
      ultimately have "\<lfloor>log 2 x\<rfloor> = 0" by (simp add: floor_eq_iff)
      then show ?thesis using False F2 1(3) by (subst floorLog2.simps) simp
    qed
  qed
qed

lemma exponentOf_at:
  assumes "pow2 (k + 52) \<le> \<bar>x\<bar>" and "\<bar>x\<bar> < pow2 (k + 53)" and "- 1074 \<le> k"
  shows "exponentOf x = k"
proof -
  have pos: "0 < \<bar>x\<bar>" using assms(1) pow2_pos [of "k + 52"] by linarith
  have 1: "of_int (k + 52) \<le> log 2 \<bar>x\<bar>"
    using assms(1) pos by (simp add: le_log_iff pow2_powr)
  have 2: "log 2 \<bar>x\<bar> < of_int (k + 53)"
    using assms(2) pos by (simp add: log_less_iff pow2_powr)
  have "\<lfloor>log 2 \<bar>x\<bar>\<rfloor> = k + 52"
    using 1 2 by (simp add: floor_eq_iff)
  with assms(3) pos show ?thesis by (simp add: exponentOf_def floorLog2_log)
qed

lemma roundEven_near: "\<bar>of_int (roundEven y) - y\<bar> \<le> 1 / 2"
  unfolding roundEven_def by (auto simp: abs_if) linarith+

text \<open>
  The result of an operation whose exact value \<open>x\<close> has its last place at exponent
  \<open>k\<close>, in the range of the normal numbers.
\<close>

lemma roundResult_at:
  assumes "pow2 (k + 52) \<le> \<bar>x\<bar>" and "\<bar>x\<bar> < pow2 (k + 53)" and "- 1074 \<le> k" and "k \<le> 970"
  shows "roundResult x = Num (of_int (roundEven (x / pow2 k)) * pow2 k)"
proof -
  have e: "exponentOf x = k" using assms(1,2,3) by (rule exponentOf_at)
  let ?m = "roundEven (x / pow2 k)"
  have r: "rnd x = of_int ?m * pow2 k" by (simp add: rnd_def e)
  have p: "0 < pow2 k" by (rule pow2_pos)
  have s: "pow2 (k + 52) = 2 ^ 52 * pow2 k" "pow2 (k + 53) = 2 ^ 53 * pow2 k"
    by (simp_all add: pow2_powr powr_add powr_realpow [symmetric] del: powr_realpow)
  have ax: "\<bar>x / pow2 k\<bar> = \<bar>x\<bar> / pow2 k" using p by simp
  have lo: "2 ^ 52 \<le> \<bar>x / pow2 k\<bar>" using assms(1) p unfolding ax s by (simp add: field_simps)
  have hi: "\<bar>x / pow2 k\<bar> < 2 ^ 53" using assms(2) p unfolding ax s by (simp add: field_simps)
  have near: "\<bar>of_int ?m - x / pow2 k\<bar> \<le> 1 / 2" by (rule roundEven_near)
  have p52: "(2::real) ^ 52 = 4503599627370496" and p53: "(2::real) ^ 53 = 9007199254740992"
    by simp_all
  have mlo: "(1::real) \<le> \<bar>of_int ?m\<bar>" using lo near unfolding p52 by linarith
  have mhi: "\<bar>real_of_int ?m\<bar> \<le> 2 ^ 53 + 1 / 2" using hi near unfolding p53 by linarith
  have "\<bar>?m\<bar> \<le> 2 ^ 53"
  proof -
    have "real_of_int \<bar>?m\<bar> < 2 ^ 53 + 1" using mhi by simp
    then have "real_of_int \<bar>?m\<bar> < real_of_int (2 ^ 53 + 1)" by simp
    then have "\<bar>?m\<bar> < 2 ^ 53 + 1" by (simp only: of_int_less_iff)
    then show ?thesis by simp
  qed
  then have mhi': "\<bar>real_of_int ?m\<bar> \<le> 2 ^ 53"
    by (metis of_int_abs of_int_le_iff of_int_numeral of_int_power)
  have nz: "rnd x \<noteq> 0" using mlo p r by auto
  have "pow2 k \<le> pow2 970" using assms(4) unfolding pow2_powr by (intro powr_mono) simp_all
  then have "\<bar>rnd x\<bar> \<le> 2 ^ 53 * pow2 970"
    unfolding r abs_mult using mhi' p
    by (smt (verit) mult_mono abs_ge_zero pow2_pos abs_of_pos)
  also have "\<dots> < pow2 1024" by (simp add: pow2_def)
  finally have "\<not> pow2 1024 \<le> \<bar>rnd x\<bar>" by simp
  with nz r show ?thesis by (simp add: roundResult_def)
qed

lemmas roundResult_cases =
  roundResult_at [of "- 47"] roundResult_at [of "- 48"] roundResult_at [of "- 49"]
  roundResult_at [of "- 50"] roundResult_at [of "- 51"] roundResult_at [of "- 53"]
  roundResult_at [of "- 54"] roundResult_at [of "- 56"] roundResult_at [of "- 57"]
  roundResult_at [of "- 60"]

lemmas relativeChange_eval =
  relativeChange_def average_def numberLiteral_def jsSub_def jsDiv_def jsMul_def
  signedZero_def signedInfinity_def roundResult_cases pow2_def roundEven_def

lemma calculateTrend_short:
  "length data < 3 \<Longrightarrow> calculateTrend data = insufficient_data"
  by (simp add: calculateTrend_def)

lemma calculateTrend_band:
  assumes "3 \<le> length data"
  shows "calculateTrend data =
           (if jsLess (Num 5) (relativeChange data) then increasing
            else if jsLess (relativeChange data) (Num (- 5)) then decreasing
            else stable)"
  using assms by (simp add: calculateTrend_def relativeChange_def Let_def)

lemma calculateTrend_zero_mean:
  assumes "3 \<le> length data" and "average (take (length data div 2) data) = Num 0"
  shows "calculateTrend data =
           (if jsLess (Num 0) (average (drop (length data div 2) data)) then increasing
            else if jsLess (average (drop (length data div 2) data)) (Num 0) then decreasing
            else stable)"
  using assms
  by (cases "average (drop (length data div 2) data)")
    (simp_all add: calculateTrend_def Let_def jsSub_def jsDiv_def jsMul_def
      signedInfinity_def signedZero_def)

lemma relativeChange_example_11:
  "relativeChange (map numberLiteral [10, 10, 10, 10, 10, 11])
     = Num (7505999378950841 / 2251799813685248)"
  by (simp add: relativeChange_eval)

lemma relativeChange_example_10_2:
  "relativeChange (map numberLiteral [10, 10, 10, 10, 10, 102 / 10])
     = Num (93824992236885 / 140737488355328)"
  by (simp add: relativeChange_eval)

lemma relativeChange_example_12:
  "relativeChange (map numberLiteral [10, 10, 10, 10, 10, 12])
     = Num (1876499844737705 / 281474976710656)"
  by (simp add: relativeChange_eval)

lemma relativeChange_example_falling:
  "relativeChange (map numberLiteral [12, 10, 10, 10, 10, 10])
     = Num (- (3518437208883197 / 562949953421312))"
  by (simp add: relativeChange_eval)

lemma relativeChange_example_edge:
  "relativeChange (map numberLiteral [10, 10, 20, 12, 13, 13])
     = Num (- (2814749767106565 / 562949953421312))"
  by (simp add: relativeChange_eval)

lemma average_example_zero:
  "average (take (length (map numberLiteral [0, 0, 5, 5]) div 2) (map numberLiteral [0, 0, 5, 5]))
     = Num 0
   \<and> average (drop (length (map numberLiteral [0, 0, 5, 5]) div 2) (map numberLiteral [0, 0, 5, 5]))
     = Num 5"
  by (simp add: relativeChange_eval)

text \<open>
  Rounding decides at the edge of the band: the halves of [10,10,20,12,13,13] have the
  means 40/3 and 38/3, an exact change of -5 per cent, which is not below -5; the
  numbers computed are the roundings of 40/3 and of 38/3, their change is computed as
  -5.000000000000009, and the result is \<open>decreasing\<close>.
\<close>

lemma calculateTrend_example_edge:
  "calculateTrend (map numberLiteral [10, 10, 20, 12, 13, 13]) = decreasing"
  by (simp add: calculateTrend_band relativeChange_example_edge del: list.map)

text \<open>
  C5 (as the claim states its example): the history [10,10,10,10,10,11] would be
  classified \<open>increasing\<close>. The code compares the halves' means, 10 against the
  rounding of 31/3, a change computed as 3.3333333333333397 per cent, inside the band:
  the result is \<open>stable\<close>.
\<close>

theorem C5_example_counterexample:
  "calculateTrend (map numberLiteral [10, 10, 10, 10, 10, 11]) \<noteq> increasing
   \<and> calculateTrend (map numberLiteral [10, 10, 10, 10, 10, 11]) = stable
   \<and> relativeChange (map numberLiteral [10, 10, 10, 10, 10, 11])
       = Num (7505999378950841 / 2251799813685248)"
  by (simp add: calculateTrend_band relativeChange_example_11 del: list.map)

text \<open>
  C5 (amended): a history shorter than 3 entries yields \<open>insufficient_data\<close>. For a
  longer one the relative change of the second half's mean against the first half's is
  computed in floating-point arithmetic (each sum, each mean, the difference, the
  quotient and the product by 100 are rounded); a computed change above 5 yields
  \<open>increasing\<close>, one below -5 yields \<open>decreasing\<close>, and anything else
  \<open>stable\<close>. When the first half's mean is 0 the computed change is infinite or not
  a number: the result is \<open>increasing\<close> when the second half's mean is positive,
  \<open>decreasing\<close> when it is negative, and \<open>stable\<close> otherwise. The histories
  [10,10,10,10,10,11] and [10,10,10,10,10,10.2] both yield \<open>stable\<close>.
\<close>

theorem C5_calculateTrend:
  "(length data < 3 \<longrightarrow> calculateTrend data = insufficient_data)
   \<and> (3 \<le> length data \<longrightarrow>
        calculateTrend data =
          (if jsLess (Num 5) (relativeChange data) then increasing
           else if jsLess (relativeChange data) (Num (- 5)) then decreasing
           else stable))
   \<and> (3 \<le> length data \<and> average (take (length data div 2) data) = Num 0 \<longrightarrow>
        calculateTrend data =
          (if jsLess (Num 0) (average (drop (length data div 2) data)) then increasing
           else if jsLess (average (drop (length data div 2) data)) (Num 0) then decreasing
           else stable))
   \<and> calculateTrend (map numberLiteral [10, 10, 10, 10, 10, 11]) = stable
   \<and> calculateTrend (map numberLiteral [10, 10, 10, 10, 10, 102 / 10]) = stable"
proof -
  have 1: "calculateTrend (map numberLiteral [10, 10, 10, 10, 10, 11]) = stable"
    by (simp add: calculateTrend_band relativeChange_example_11 del: list.map)
  have 2: "calculateTrend (map numberLiteral [10, 10, 10, 10, 10, 102 / 10]) = stable"
    using calculateTrend_band [of "map numberLiteral [10, 10, 10, 10, 10, 102 / 10]"]
      relativeChange_example_10_2
    by simp
  from 1 2 calculateTrend_short [of data] calculateTrend_band [of data]
    calculateTrend_zero_mean [of data]
  show ?thesis by blast
qed

theorem C5_calculateTrend_witness:
  "calculateTrend (map numberLiteral [10, 10, 10, 10, 10, 12]) = increasing
   \<and> calculateTrend (map numberLiteral [12, 10, 10, 10, 10, 10]) = decreasing
   \<and> calculateTrend (map numberLiteral [0, 0, 5, 5]) = increasing
   \<and> calculateTrend (map numberLiteral [10, 11]) = insufficient_data"
proof -
  let ?up = "map numberLiteral [10, 10, 10, 10, 10, 12]"
  let ?down = "map numberLiteral [12, 10, 10, 10, 10, 10]"
  let ?zero = "map numberLiteral [0, 0, 5, 5]"
  let ?short = "map numberLiteral [10, 11]"
  have a: "3 \<le> length ?up" by simp
  have c: "jsLess (Num 5) (relativeChange ?up)"
    by (simp add: relativeChange_example_12 del: list.map)
  have a': "3 \<le> length ?down" by simp
  have c': "\<not> jsLess (Num 5) (relativeChange ?down)
            \<and> jsLess (relativeChange ?down) (Num (- 5))"
    by (simp add: relativeChange_example_falling del: list.map)
  have z: "3 \<le> length ?zero \<and> average (take (length ?zero div 2) ?zero) = Num 0"
    using average_example_zero by simp
  have z': "jsLess (Num 0) (average (drop (length ?zero div 2) ?zero))"
    using average_example_zero by simp
  have d: "length ?short < 3" by simp
  note U = C5_calculateTrend [of ?up]
  note D = C5_calculateTrend [of ?down]
  note Z = C5_calculateTrend [of ?zero]
  note S = C5_calculateTrend [of ?short]
  from U [THEN conjunct2, THEN conjunct1, THEN mp, OF a] c
  have 1: "calculateTrend ?up = increasing" by simp
  from D [THEN conjunct2, THEN conjunct1, THEN mp, OF a'] c'
  have 2: "calculateTrend ?down = decreasing" by simp
  from Z [THEN conjunct2, THEN conjunct2, THEN conjunct1, THEN mp, OF z] z'
  have 3: "calculateTrend ?zero = increasing" by simp
  from S [THEN conjunct1, THEN mp, OF d]
  have 4: "calculateTrend ?short = insufficient_data" .
  from 1 2 3 4 show ?thesis by blast
qed

subsection \<open>C4: hop priority\<close>

lemma getHopPriority_bands:
  "getHopPriority h =
     (if latencyOrZero h < 5 then 1
      else if latencyOrZero h < 10 then 2
      else if latencyOrZero h < 20 then 3
      else if latencyOrZero h < 50 then 4
      else if shouldSkip (analyzeSlowHop h) then 999
      else 5)"
  by (simp add: getHopPriority_def latencyOrZero_def Let_def)

lemma analyzeSlowHop_above_50:
  assumes "latencyOrZero h > 50"
  shows "shouldSkip (analyzeSlowHop h)"
proof -
  from assms obtain l where l: "avgLatency h = Some l" "l > 50"
    by (auto simp: latencyOrZero_def split: option.splits)
  then show ?thesis
    by (auto simp: analyzeSlowHop_def Let_def split: option.splits)
qed

text \<open>
  C4 (as stated): every hop recommended for skip would receive the lowest priority
  whatever its latency band. A hop with probe latency 8 ms and 5 per cent packet loss
  is recommended for skip by \<open>analyzeSlowHop\<close> (and by \<open>shouldSkipHop\<close>), yet
  \<open>getHopPriority\<close> returns 2: the latency bands are tested first.
\<close>

theorem C4_skip_priority_counterexample:
  "shouldSkip (analyzeSlowHop (sampleHop 3 ''10.0.0.3'' (Some 8) (Some 5)))
   \<and> getHopPriority (sampleHop 3 ''10.0.0.3'' (Some 8) (Some 5)) = 2
   \<and> getHopPriority (sampleHop 3 ''10.0.0.3'' (Some 8) (Some 5)) \<noteq> 999"
  by (simp add: getHopPriority_def analyzeSlowHop_def sampleHop_def Let_def)

text \<open>
  C4 (amended): \<open>getHopPriority\<close> returns 1 when the hop's probe latency (0 when
  absent) is below 5 ms, 2 when below 10 ms, 3 when below 20 ms, 4 when below 50 ms, in
  these bands whether or not the hop is recommended for skip; at 50 ms and above it
  returns 999 when \<open>analyzeSlowHop\<close> recommends skipping the hop, which it does for
  every latency above 50 ms, and 5 otherwise.
\<close>

theorem C4_getHopPriority:
  "(latencyOrZero h < 5 \<longrightarrow> getHopPriority h = 1)
   \<and> (5 \<le> latencyOrZero h \<and> latencyOrZero h < 10 \<longrightarrow> getHopPriority h = 2)
   \<and> (10 \<le> latencyOrZero h \<and> latencyOrZero h < 20 \<longrightarrow> getHopPriority h = 3)
   \<and> (20 \<le> latencyOrZero h \<and> latencyOrZero h < 50 \<longrightarrow> getHopPriority h = 4)
   \<and> (50 \<le> latencyOrZero h \<and> shouldSkip (analyzeSlowHop h) \<longrightarrow> getHopPriority h = 999)
   \<and> (50 \<le> latencyOrZero h \<and> \<not> shouldSkip (analyzeSlowHop h) \<longrightarrow> getHopPriority h = 5)
   \<and> (50 < latencyOrZero h \<longrightarrow> getHopPriority h = 999)"
proof -
  have "50 < latencyOrZero h \<longrightarrow> getHopPriority h = 999"
    using analyzeSlowHop_above_50 [of h] by (simp add: getHopPriority_bands)
  then show ?thesis
    by (simp add: getHopPriority_bands)
qed

theorem C4_getHopPriority_witness:
  "getHopPriority (sampleHop 1 ''10.0.0.1'' (Some 3) None) = 1
   \<and> getHopPriority (sampleHop 2 ''10.0.0.2'' (Some 7) None) = 2
   \<and> getHopPriority (sampleHop 3 ''10.0.0.3'' (Some 15) None) = 3
   \<and> getHopPriority (sampleHop 4 ''10.0.0.4'' (Some 30) None) = 4
   \<and> getHopPriority (sampleHop 5 ''10.0.0.5'' (Some 50) None) = 5
   \<and> getHopPriority (sampleHop 6 ''10.0.0.6'' (Some 50) (Some 100)) = 999
   \<and> getHopPriority (sampleHop 7 ''10.0.0.7'' (Some 200) None) = 999"
proof -
  have 1: "getHopPriority (sampleHop 1 ''10.0.0.1'' (Some 3) None) = 1"
    using C4_getHopPriority [of "sampleHop 1 ''10.0.0.1'' (Some 3) None"]
    by (simp add: latencyOrZero_def sampleHop_def)
  have 2: "getHopPriority (sampleHop 2 ''10.0.0.2'' (Some 7) None) = 2"
    using C4_getHopPriority [of "sampleHop 2 ''10.0.0.2'' (Some 7) None"]
    by (simp add: latencyOrZero_def sampleHop_def)
  have 3: "getHopPriority (sampleHop 3 ''10.0.0.3'' (Some 15) None) = 3"
    using C4_getHopPriority [of "sampleHop 3 ''10.0.0.3'' (Some 15) None"]
    by (simp add: latencyOrZero_def sampleHop_def)
  have 4: "getHopPriority (sampleHop 4 ''10.0.0.4'' (Some 30) None) = 4"
    using C4_getHopPriority [of "sampleHop 4 ''10.0.0.4'' (Some 30) None"]
    by (simp add: latencyOrZero_def sampleHop_def)
  have s5: "\<not> shouldSkip (analyzeSlowHop (sampleHop 5 ''10.0.0.5'' (Some 50) None))"
    by (simp add: analyzeSlowHop_def sampleHop_def Let_def)
  have 5: "getHopPriority (sampleHop 5 ''10.0.0.5'' (Some 50) None) = 5"
    using C4_getHopPriority [of "sampleHop 5 ''10.0.0.5'' (Some 50) None"] s5
    by (simp add: latencyOrZero_def sampleHop_def)
  have s6: "shouldSkip (analyzeSlowHop (sampleHop 6 ''10.0.0.6'' (Some 50) (Some 100)))"
    by (simp add: analyzeSlowHop_def sampleHop_def Let_def)
  have 6: "getHopPriority (sampleHop 6 ''10.0.0.6'' (Some 50) (Some 100)) = 999"
    using C4_getHopPriority [of "sampleHop 6 ''10.0.0.6'' (Some 50) (Some 100)"] s6
    by (simp add: latencyOrZero_def sampleHop_def)
  have 7: "getHopPriority (sampleHop 7 ''10.0.0.7'' (Some 200) None) = 999"
    using C4_getHopPriority [of "sampleHop 7 ''10.0.0.7'' (Some 200) None"]
    by (simp add: latencyOrZero_def sampleHop_def)
  from 1 2 3 4 5 6 7 show ?thesis by blast
qed

subsection \<open>C10: pingHopWithRetry always resolves\<close>

lemma pingHopWithRetry_cases:
  "pingHopWithRetry probe a ms =
     (case probe a (max (real ms / 1000) 0.05) of
        ProbeThrows msg \<Rightarrow> Settles 0 (Fulfilled (failedPing msg))
      | ProbeReturns NeverSettles \<Rightarrow> Settles ms (Fulfilled (failedPing ''Ping timeout''))
      | ProbeReturns (Settles t (Fulfilled r)) \<Rightarrow>
          if t \<le> ms then Settles t (Fulfilled r)
          else Settles ms (Fulfilled (failedPing ''Ping timeout''))
      | ProbeReturns (Settles t (Rejected msg)) \<Rightarrow>
          if t \<le> ms then Settles t (Fulfilled (failedPing msg))
          else Settles ms (Fulfilled (failedPing ''Ping timeout'')))"
  by (simp add: pingHopWithRetry_def race_def timeoutPromise_def
      split: probe_call.splits promise.splits outcome.splits)

lemma pingHopWithRetry_resolves:
  "\<exists>t r. pingHopWithRetry probe a ms = Settles t (Fulfilled r) \<and> t \<le> ms"
  by (simp add: pingHopWithRetry_cases split: probe_call.splits promise.splits outcome.splits)

lemma pingHopWithRetry_failure:
  assumes "probeErrorOrTimeout (probe a (max (real ms / 1000) 0.05)) ms"
  shows "\<exists>t. pingHopWithRetry probe a ms =
           Settles t (Fulfilled (failedPing
             (probeErrorMessage (probe a (max (real ms / 1000) 0.05)) ms)))"
  using assms
  by (auto simp: pingHopWithRetry_cases probeErrorOrTimeout_def probeErrorMessage_def
      split: probe_call.splits promise.splits outcome.splits)

text \<open>
  C10: for every address, timeout and behaviour of the probe, \<open>pingHopWithRetry\<close>
  settles and is fulfilled, never rejected, no later than its timeout; when the probe
  throws, rejects or loses the race against the timer, the result has
  \<open>alive = false\<close>, \<open>time = null\<close> and carries the error message.
\<close>

theorem C10_pingHopWithRetry_never_rejects:
  "(\<exists>t r. pingHopWithRetry probe a ms = Settles t (Fulfilled r) \<and> t \<le> ms)
   \<and> (\<forall>t msg. pingHopWithRetry probe a ms \<noteq> Settles t (Rejected msg))
   \<and> pingHopWithRetry probe a ms \<noteq> NeverSettles
   \<and> (probeErrorOrTimeout (probe a (max (real ms / 1000) 0.05)) ms \<longrightarrow>
        (\<exists>t r. pingHopWithRetry probe a ms = Settles t (Fulfilled r)
           \<and> alive r = False \<and> time r = None
           \<and> error r = Some (probeErrorMessage (probe a (max (real ms / 1000) 0.05)) ms)))"
proof -
  obtain t r where tr: "pingHopWithRetry probe a ms = Settles t (Fulfilled r)" "t \<le> ms"
    using pingHopWithRetry_resolves by blast
  have "probeErrorOrTimeout (probe a (max (real ms / 1000) 0.05)) ms \<longrightarrow>
        (\<exists>t r. pingHopWithRetry probe a ms = Settles t (Fulfilled r)
           \<and> alive r = False \<and> time r = None
           \<and> error r = Some (probeErrorMessage (probe a (max (real ms / 1000) 0.05)) ms))"
  proof
    assume "probeErrorOrTimeout (probe a (max (real ms / 1000) 0.05)) ms"
    with pingHopWithRetry_failure [of probe a ms] obtain t' where
      "pingHopWithRetry probe a ms =
         Settles t' (Fulfilled (failedPing
           (probeErrorMessage (probe a (max (real ms / 1000) 0.05)) ms)))" by blast
    then show "\<exists>t r. pingHopWithRetry probe a ms = Settles t (Fulfilled r)
           \<and> alive r = False \<and> time r = None
           \<and> error r = Some (probeErrorMessage (probe a (max (real ms / 1000) 0.05)) ms)"
      by (simp add: failedPing_def)
  qed
  with tr show ?thesis by simp
qed

theorem C10_pingHopWithRetry_witness:
  "pingHopWithRetry (\<lambda>a s. ProbeReturns NeverSettles) (Some ''10.0.0.1'') 300
     = Settles 300 (Fulfilled (failedPing ''Ping timeout''))
   \<and> pingHopWithRetry (\<lambda>a s. ProbeThrows ''spawn ping ENOENT'') (Some ''10.0.0.1'') 300
     = Settles 0 (Fulfilled (failedPing ''spawn ping ENOENT''))"
proof -
  have a: "probeErrorOrTimeout
             ((\<lambda>a s. ProbeReturns NeverSettles) (Some ''10.0.0.1'') (max (real 300 / 1000) 0.05)) 300"
    by (simp add: probeErrorOrTimeout_def)
  have b: "probeErrorOrTimeout
             ((\<lambda>a s. ProbeThrows ''spawn ping ENOENT'') (Some ''10.0.0.1'')
                (max (real 300 / 1000) 0.05)) 300"
    by (simp add: probeErrorOrTimeout_def)
  from C10_pingHopWithRetry_never_rejects
         [of "\<lambda>a s. ProbeReturns NeverSettles" "Some ''10.0.0.1''" 300] a
  obtain t r where 1:
    "pingHopWithRetry (\<lambda>a s. ProbeReturns NeverSettles) (Some ''10.0.0.1'') 300
       = Settles t (Fulfilled r)" by blast
  from C10_pingHopWithRetry_never_rejects
         [of "\<lambda>a s. ProbeThrows ''spawn ping ENOENT''" "Some ''10.0.0.1''" 300] b
  obtain t' r' where 2:
    "pingHopWithRetry (\<lambda>a s. ProbeThrows ''spawn ping ENOENT'') (Some ''10.0.0.1'') 300
       = Settles t' (Fulfilled r')" by blast
  from 1 2 show ?thesis
    by (simp add: pingHopWithRetry_cases)
qed

subsection \<open>C1: the probe batch settles hop by hop\<close>

lemma shiftIfOver_snoc_ne: "0 < n \<Longrightarrow> shiftIfOver n (xs @ [e]) \<noteq> []"
  by (cases xs) (auto simp: shiftIfOver_def)

lemma shiftIfOver_snoc_last: "0 < n \<Longrightarrow> last (shiftIfOver n (xs @ [e])) = e"
  by (cases xs) (auto simp: shiftIfOver_def)

lemma shiftIfOver_length: "length xs \<le> Suc n \<Longrightarrow> length (shiftIfOver n xs) \<le> n"
  by (auto simp: shiftIfOver_def)

lemma pingOne_settles:
  "\<exists>t h'. pingOne probe start h = Settles t (Fulfilled h') \<and> t \<le> 1000"
proof -
  obtain t r where "pingHopWithRetry probe (ip h) 1000 = Settles t (Fulfilled r)" "t \<le> 1000"
    using pingHopWithRetry_resolves by blast
  then show ?thesis by (simp add: pingOne_def)
qed

lemma pingOne_failed:
  assumes "probeFailed (probe (ip h) 1) 1000"
    and "pingOne probe start h = Settles t (Fulfilled h')"
  shows "\<not> isReachable h' \<and> avgLatency h' = None \<and> lastPingIsTimeout h'"
proof -
  have m: "max (real 1000 / 1000) 0.05 = (1::real)" by simp
  from assms(1) have "\<exists>t' r. pingHopWithRetry probe (ip h) 1000 = Settles t' (Fulfilled r)
      \<and> \<not> alive r"
    by (auto simp: pingHopWithRetry_cases probeFailed_def probeErrorOrTimeout_def failedPing_def m
        split: probe_call.splits promise.splits outcome.splits)
  then obtain t' r where r: "pingHopWithRetry probe (ip h) 1000 = Settles t' (Fulfilled r)"
      "\<not> alive r" by blast
  with assms(2) have h': "h' = applyPingResult (start + t') h r"
    by (auto simp: pingOne_def)
  show ?thesis
    using r(2)
    by (simp add: h' applyPingResult_def addRecentPing_def lastPingIsTimeout_def Let_def
        shiftIfOver_snoc_ne shiftIfOver_snoc_last)
qed

lemma allSettled_fulfilled:
  assumes "\<forall>p \<in> set ps. \<exists>t r. p = Settles t r \<and> t \<le> B"
  shows "\<exists>T rs. allSettled ps = Settles T (Fulfilled rs) \<and> T \<le> B \<and> length rs = length ps
           \<and> (\<forall>i < length ps. \<exists>t. ps ! i = Settles t (rs ! i))"
  using assms
proof (induction ps)
  case Nil
  then show ?case by simp
next
  case (Cons p ps)
  then obtain t r where p: "p = Settles t r" "t \<le> B" by auto
  from Cons obtain T rs where IH: "allSettled ps = Settles T (Fulfilled rs)" "T \<le> B"
     "length rs = length ps" "\<forall>i < length ps. \<exists>t. ps ! i = Settles t (rs ! i)"
    by auto
  have "allSettled (p # ps) = Settles (max t T) (Fulfilled (r # rs))"
    by (simp add: p IH)
  moreover have "\<forall>i < length (p # ps). \<exists>t. (p # ps) ! i = Settles t ((r # rs) ! i)"
    using IH(4) p(1) by (auto simp: nth_Cons split: nat.splits)
  ultimately show ?case using p(2) IH(2,3) by auto
qed

lemma pingOne_cases:
  "pingOne probe start h =
     (case probe (ip h) 1 of
        ProbeThrows msg \<Rightarrow> Settles 0 (Fulfilled (applyPingResult start h (failedPing msg)))
      | ProbeReturns NeverSettles \<Rightarrow>
          Settles 1000 (Fulfilled (applyPingResult (start + 1000) h (failedPing ''Ping timeout'')))
      | ProbeReturns (Settles t (Fulfilled r)) \<Rightarrow>
          if t \<le> 1000 then Settles t (Fulfilled (applyPingResult (start + t) h r))
          else Settles 1000
                 (Fulfilled (applyPingResult (start + 1000) h (failedPing ''Ping timeout'')))
      | ProbeReturns (Settles t (Rejected msg)) \<Rightarrow>
          if t \<le> 1000 then Settles t (Fulfilled (applyPingResult (start + t) h (failedPing msg)))
          else Settles 1000
                 (Fulfilled (applyPingResult (start + 1000) h (failedPing ''Ping timeout''))))"
proof -
  have m: "max (real 1000 / 1000) 0.05 = (1::real)" by simp
  show ?thesis
    by (simp add: pingOne_def pingHopWithRetry_cases m
        split: probe_call.splits promise.splits outcome.splits)
qed

lemma applyPingResult_same_hop:
  "hop (applyPingResult now h r) = hop h \<and> ip (applyPingResult now h r) = ip h
   \<and> hopKey (applyPingResult now h r) = hopKey h
   \<and> hostname (applyPingResult now h r) = hostname h
   \<and> times (applyPingResult now h r) = times h"
  by (simp add: applyPingResult_def addRecentPing_def Let_def)

lemma applyPingResult_records:
  "isReachable (applyPingResult now h r) = alive r
   \<and> avgLatency (applyPingResult now h r) = (if alive r then truthyNumber (time r) else None)
   \<and> pingResults (applyPingResult now h r) = Some [r]
   \<and> (\<exists>ph. pingHistory (applyPingResult now h r) = Some ph \<and> ph \<noteq> []
         \<and> p_latency (last ph) = truthyNumber (time r)
         \<and> p_isReachable (last ph) = alive r
         \<and> p_timestamp (last ph) = now)"
  by (simp add: applyPingResult_def addRecentPing_def Let_def
      shiftIfOver_snoc_ne shiftIfOver_snoc_last)

lemma pingOne_same_hop:
  assumes "pingOne probe start h = Settles t (Fulfilled h')"
  shows "hop h' = hop h \<and> ip h' = ip h \<and> hopKey h' = hopKey h
         \<and> hostname h' = hostname h \<and> times h' = times h"
  using assms applyPingResult_same_hop
  by (auto simp: pingOne_cases split: probe_call.splits promise.splits outcome.splits if_splits)

lemma pingOne_answered:
  assumes "pingOne probe start h = Settles t (Fulfilled h')"
    and "probe (ip h) 1 = ProbeReturns (Settles t0 (Fulfilled r))" and "t0 \<le> 1000"
  shows "t = t0 \<and> h' = applyPingResult (start + t0) h r"
  using assms by (auto simp: pingOne_cases)

lemma pingOne_error:
  assumes "pingOne probe start h = Settles t (Fulfilled h')"
    and "probeErrorOrTimeout (probe (ip h) 1) 1000"
  shows "h' = applyPingResult (start + t) h (failedPing (probeErrorMessage (probe (ip h) 1) 1000))"
  using assms
  by (auto simp: pingOne_cases probeErrorOrTimeout_def probeErrorMessage_def
      split: probe_call.splits promise.splits outcome.splits if_splits)

text \<open>
  C1: the probe step over any batch of hops settles, fulfilled, within the 1000 ms probe
  timeout, with one fulfilled outcome per hop in the order of the batch. The outcome of
  hop \<open>i\<close> is the record of that same hop (same hop number, address, key, host name
  and traceroute times), updated from the answer of its own probe alone, whatever the
  other probes do:
  \<^item> if the probe of hop \<open>i\<close> answers \<open>r\<close> within the timeout, at \<open>t0\<close>, the
    outcome settles at \<open>t0\<close> and is the hop with \<open>r\<close> applied: reachable exactly if
    \<open>r\<close> says alive, its latency that of \<open>r\<close>, \<open>r\<close> as its ping results, and a
    ping-history entry for \<open>r\<close> stamped with the time of the answer;
  \<^item> if the probe throws, rejects, or has not answered when the timer fires, the outcome
    is the hop with the failed ping of that error (or of \<open>Ping timeout\<close>) applied;
  \<^item> in that case, and when the probe reports the host as not alive, the hop is recorded
    unreachable, without latency, and the last entry of its ping history is a timeout
    entry.
\<close>

theorem C1_probe_batch_settle_all:
  "\<exists>T rs. probeBatch probe start hs = Settles T (Fulfilled rs) \<and> T \<le> 1000
      \<and> length rs = length hs
      \<and> (\<forall>i < length hs. \<exists>t h'.
            pingOne probe start (hs ! i) = Settles t (Fulfilled h') \<and> t \<le> 1000
            \<and> rs ! i = Fulfilled h'
            \<and> hop h' = hop (hs ! i) \<and> ip h' = ip (hs ! i) \<and> hopKey h' = hopKey (hs ! i)
            \<and> hostname h' = hostname (hs ! i) \<and> times h' = times (hs ! i)
            \<and> (\<forall>t0 r. probe (ip (hs ! i)) 1 = ProbeReturns (Settles t0 (Fulfilled r)) \<and> t0 \<le> 1000 \<longrightarrow>
                  t = t0 \<and> h' = applyPingResult (start + t0) (hs ! i) r
                  \<and> isReachable h' = alive r
                  \<and> avgLatency h' = (if alive r then truthyNumber (time r) else None)
                  \<and> pingResults h' = Some [r]
                  \<and> (\<exists>ph. pingHistory h' = Some ph \<and> ph \<noteq> []
                        \<and> p_latency (last ph) = truthyNumber (time r)
                        \<and> p_isReachable (last ph) = alive r
                        \<and> p_timestamp (last ph) = start + t0))
            \<and> (probeErrorOrTimeout (probe (ip (hs ! i)) 1) 1000 \<longrightarrow>
                  h' = applyPingResult (start + t) (hs ! i)
                         (failedPing (probeErrorMessage (probe (ip (hs ! i)) 1) 1000))
                  \<and> pingResults h'
                      = Some [failedPing (probeErrorMessage (probe (ip (hs ! i)) 1) 1000)])
            \<and> (probeFailed (probe (ip (hs ! i)) 1) 1000 \<longrightarrow>
                 \<not> isReachable h' \<and> avgLatency h' = None \<and> lastPingIsTimeout h'))"
proof -
  have "\<forall>p \<in> set (map (pingOne probe start) hs). \<exists>t r. p = Settles t r \<and> t \<le> 1000"
    using pingOne_settles by fastforce
  from allSettled_fulfilled [OF this] obtain T rs where
    a: "allSettled (map (pingOne probe start) hs) = Settles T (Fulfilled rs)" "T \<le> 1000"
       "length rs = length hs"
       "\<forall>i < length hs. \<exists>t. map (pingOne probe start) hs ! i = Settles t (rs ! i)"
    by auto
  have "\<forall>i < length hs. \<exists>t h'.
            pingOne probe start (hs ! i) = Settles t (Fulfilled h') \<and> t \<le> 1000
            \<and> rs ! i = Fulfilled h'
            \<and> hop h' = hop (hs ! i) \<and> ip h' = ip (hs ! i) \<and> hopKey h' = hopKey (hs ! i)
            \<and> hostname h' = hostname (hs ! i) \<and> times h' = times (hs ! i)
            \<and> (\<forall>t0 r. probe (ip (hs ! i)) 1 = ProbeReturns (Settles t0 (Fulfilled r)) \<and> t0 \<le> 1000 \<longrightarrow>
                  t = t0 \<and> h' = applyPingResult (start + t0) (hs ! i) r
                  \<and> isReachable h' = alive r
                  \<and> avgLatency h' = (if alive r then truthyNumber (time r) else None)
                  \<and> pingResults h' = Some [r]
                  \<and> (\<exists>ph. pingHistory h' = Some ph \<and> ph \<noteq> []
                        \<and> p_latency (last ph) = truthyNumber (time r)
                        \<and> p_isReachable (last ph) = alive r
                        \<and> p_timestamp (last ph) = start + t0))
            \<and> (probeErrorOrTimeout (probe (ip (hs ! i)) 1) 1000 \<longrightarrow>
                  h' = applyPingResult (start + t) (hs ! i)
                         (failedPing (probeErrorMessage (probe (ip (hs ! i)) 1) 1000))
                  \<and> pingResults h'
                      = Some [failedPing (probeErrorMessage (probe (ip (hs ! i)) 1) 1000)])
            \<and> (probeFailed (probe (ip (hs ! i)) 1) 1000 \<longrightarrow>
                 \<not> isReachable h' \<and> avgLatency h' = None \<and> lastPingIsTimeout h')"
  proof (intro allI impI)
    fix i assume i: "i < length hs"
    obtain t h' where s: "pingOne probe start (hs ! i) = Settles t (Fulfilled h')" "t \<le> 1000"
      using pingOne_settles by blast
    from a(4) i obtain t2 where "pingOne probe start (hs ! i) = Settles t2 (rs ! i)" by auto
    with s have rsi: "rs ! i = Fulfilled h'" by simp
    have same: "hop h' = hop (hs ! i) \<and> ip h' = ip (hs ! i) \<and> hopKey h' = hopKey (hs ! i)
            \<and> hostname h' = hostname (hs ! i) \<and> times h' = times (hs ! i)"
      using pingOne_same_hop [OF s(1)] .
    have ans: "\<forall>t0 r. probe (ip (hs ! i)) 1 = ProbeReturns (Settles t0 (Fulfilled r)) \<and> t0 \<le> 1000 \<longrightarrow>
                  t = t0 \<and> h' = applyPingResult (start + t0) (hs ! i) r
                  \<and> isReachable h' = alive r
                  \<and> avgLatency h' = (if alive r then truthyNumber (time r) else None)
                  \<and> pingResults h' = Some [r]
                  \<and> (\<exists>ph. pingHistory h' = Some ph \<and> ph \<noteq> []
                        \<and> p_latency (last ph) = truthyNumber (time r)
                        \<and> p_isReachable (last ph) = alive r
                        \<and> p_timestamp (last ph) = start + t0)"
    proof (intro allI impI)
      fix t0 r
      assume p: "probe (ip (hs ! i)) 1 = ProbeReturns (Settles t0 (Fulfilled r)) \<and> t0 \<le> 1000"
      then have e: "t = t0 \<and> h' = applyPingResult (start + t0) (hs ! i) r"
        using pingOne_answered [OF s(1)] by blast
      with applyPingResult_records [of "start + t0" "hs ! i" r]
      show "t = t0 \<and> h' = applyPingResult (start + t0) (hs ! i) r
                  \<and> isReachable h' = alive r
                  \<and> avgLatency h' = (if alive r then truthyNumber (time r) else None)
                  \<and> pingResults h' = Some [r]
                  \<and> (\<exists>ph. pingHistory h' = Some ph \<and> ph \<noteq> []
                        \<and> p_latency (last ph) = truthyNumber (time r)
                        \<and> p_isReachable (last ph) = alive r
                        \<and> p_timestamp (last ph) = start + t0)"
        by simp
    qed
    have err: "probeErrorOrTimeout (probe (ip (hs ! i)) 1) 1000 \<longrightarrow>
                  h' = applyPingResult (start + t) (hs ! i)
                         (failedPing (probeErrorMessage (probe (ip (hs ! i)) 1) 1000))
                  \<and> pingResults h'
                      = Some [failedPing (probeErrorMessage (probe (ip (hs ! i)) 1) 1000)]"
    proof
      assume "probeErrorOrTimeout (probe (ip (hs ! i)) 1) 1000"
      from pingOne_error [OF s(1) this]
      have e: "h' = applyPingResult (start + t) (hs ! i)
                         (failedPing (probeErrorMessage (probe (ip (hs ! i)) 1) 1000))" .
      with applyPingResult_records
             [of "start + t" "hs ! i" "failedPing (probeErrorMessage (probe (ip (hs ! i)) 1) 1000)"]
      show "h' = applyPingResult (start + t) (hs ! i)
                         (failedPing (probeErrorMessage (probe (ip (hs ! i)) 1) 1000))
                  \<and> pingResults h'
                      = Some [failedPing (probeErrorMessage (probe (ip (hs ! i)) 1) 1000)]"
        by simp
    qed
    have fl: "probeFailed (probe (ip (hs ! i)) 1) 1000 \<longrightarrow>
                 \<not> isReachable h' \<and> avgLatency h' = None \<and> lastPingIsTimeout h'"
      using pingOne_failed [of probe "hs ! i" start t h'] s(1) by blast
    from s rsi same ans err fl
    show "\<exists>t h'.
            pingOne probe start (hs ! i) = Settles t (Fulfilled h') \<and> t \<le> 1000
            \<and> rs ! i = Fulfilled h'
            \<and> hop h' = hop (hs ! i) \<and> ip h' = ip (hs ! i) \<and> hopKey h' = hopKey (hs ! i)
            \<and> hostname h' = hostname (hs ! i) \<and> times h' = times (hs ! i)
            \<and> (\<forall>t0 r. probe (ip (hs ! i)) 1 = ProbeReturns (Settles t0 (Fulfilled r)) \<and> t0 \<le> 1000 \<longrightarrow>
                  t = t0 \<and> h' = applyPingResult (start + t0) (hs ! i) r
                  \<and> isReachable h' = alive r
                  \<and> avgLatency h' = (if alive r then truthyNumber (time r) else None)
                  \<and> pingResults h' = Some [r]
                  \<and> (\<exists>ph. pingHistory h' = Some ph \<and> ph \<noteq> []
                        \<and> p_latency (last ph) = truthyNumber (time r)
                        \<and> p_isReachable (last ph) = alive r
                        \<and> p_timestamp (last ph) = start + t0))
            \<and> (probeErrorOrTimeout (probe (ip (hs ! i)) 1) 1000 \<longrightarrow>
                  h' = applyPingResult (start + t) (hs ! i)
                         (failedPing (probeErrorMessage (probe (ip (hs ! i)) 1) 1000))
                  \<and> pingResults h'
                      = Some [failedPing (probeErrorMessage (probe (ip (hs ! i)) 1) 1000)])
            \<and> (probeFailed (probe (ip (hs ! i)) 1) 1000 \<longrightarrow>
                 \<not> isReachable h' \<and> avgLatency h' = None \<and> lastPingIsTimeout h')"
      by blast
  qed
  with a show ?thesis by (simp add: probeBatch_def)
qed


theorem C1_probe_batch_witness:
  "\<exists>T rs. probeBatch exampleProbe 0
              [sampleHop 1 ''10.0.0.1'' None None, sampleHop 2 ''10.0.0.2'' None None,
               sampleHop 3 ''10.0.0.9'' None None]
            = Settles T (Fulfilled rs)
      \<and> T \<le> 1000 \<and> length rs = 3
      \<and> (\<exists>h'. rs ! 0 = Fulfilled h' \<and> hop h' = 1 \<and> ip h' = Some ''10.0.0.1''
            \<and> isReachable h' \<and> avgLatency h' = Some 12
            \<and> pingResults h'
                = Some [\<lparr>alive = True, time = Some 12, error = None, res_packetLoss = Some 0\<rparr>])
      \<and> (\<exists>h'. rs ! 1 = Fulfilled h' \<and> hop h' = 2 \<and> \<not> isReachable h' \<and> lastPingIsTimeout h'
            \<and> pingResults h' = Some [failedPing ''Ping timeout''])
      \<and> (\<exists>h'. rs ! 2 = Fulfilled h' \<and> hop h' = 3 \<and> \<not> isReachable h' \<and> lastPingIsTimeout h'
            \<and> pingResults h' = Some [failedPing ''EHOSTUNREACH''])"
proof -
  let ?hs = "[sampleHop 1 ''10.0.0.1'' None None, sampleHop 2 ''10.0.0.2'' None None,
              sampleHop 3 ''10.0.0.9'' None None]"
  let ?r = "\<lparr>alive = True, time = Some 12, error = None, res_packetLoss = Some 0\<rparr>"
  have p0: "exampleProbe (ip (?hs ! 0)) 1 = ProbeReturns (Settles 12 (Fulfilled ?r))
            \<and> (12::nat) \<le> 1000"
    by (simp add: exampleProbe_def sampleHop_def)
  have e1: "probeErrorOrTimeout (exampleProbe (ip (?hs ! 1)) 1) 1000"
    by (simp add: probeErrorOrTimeout_def exampleProbe_def sampleHop_def)
  have e2: "probeErrorOrTimeout (exampleProbe (ip (?hs ! 2)) 1) 1000"
    by (simp add: probeErrorOrTimeout_def exampleProbe_def sampleHop_def)
  have m1: "probeErrorMessage (exampleProbe (ip (?hs ! 1)) 1) 1000 = ''Ping timeout''"
    by (simp add: probeErrorMessage_def exampleProbe_def sampleHop_def)
  have m2: "probeErrorMessage (exampleProbe (ip (?hs ! 2)) 1) 1000 = ''EHOSTUNREACH''"
    by (simp add: probeErrorMessage_def exampleProbe_def sampleHop_def)
  have f1: "probeFailed (exampleProbe (ip (?hs ! 1)) 1) 1000"
    using e1 by (simp add: probeFailed_def)
  have f2: "probeFailed (exampleProbe (ip (?hs ! 2)) 1) 1000"
    using e2 by (simp add: probeFailed_def)
  have h0: "hop (?hs ! 0) = 1 \<and> ip (?hs ! 0) = Some ''10.0.0.1''" by (simp add: sampleHop_def)
  have h1: "hop (?hs ! 1) = 2" by (simp add: sampleHop_def)
  have h2: "hop (?hs ! 2) = 3" by (simp add: sampleHop_def)
  from C1_probe_batch_settle_all [of exampleProbe 0 ?hs]
  obtain T rs where a: "probeBatch exampleProbe 0 ?hs = Settles T (Fulfilled rs)"
      "T \<le> 1000" "length rs = length ?hs"
    and b: "\<forall>i < length ?hs. \<exists>t h'.
            pingOne exampleProbe 0 (?hs ! i) = Settles t (Fulfilled h') \<and> t \<le> 1000
            \<and> rs ! i = Fulfilled h'
            \<and> hop h' = hop (?hs ! i) \<and> ip h' = ip (?hs ! i) \<and> hopKey h' = hopKey (?hs ! i)
            \<and> hostname h' = hostname (?hs ! i) \<and> times h' = times (?hs ! i)
            \<and> (\<forall>t0 r. exampleProbe (ip (?hs ! i)) 1 = ProbeReturns (Settles t0 (Fulfilled r)) \<and> t0 \<le> 1000 \<longrightarrow>
                  t = t0 \<and> h' = applyPingResult (0 + t0) (?hs ! i) r
                  \<and> isReachable h' = alive r
                  \<and> avgLatency h' = (if alive r then truthyNumber (time r) else None)
                  \<and> pingResults h' = Some [r]
                  \<and> (\<exists>ph. pingHistory h' = Some ph \<and> ph \<noteq> []
                        \<and> p_latency (last ph) = truthyNumber (time r)
                        \<and> p_isReachable (last ph) = alive r
                        \<and> p_timestamp (last ph) = 0 + t0))
            \<and> (probeErrorOrTimeout (exampleProbe (ip (?hs ! i)) 1) 1000 \<longrightarrow>
                  h' = applyPingResult (0 + t) (?hs ! i)
                         (failedPing (probeErrorMessage (exampleProbe (ip (?hs ! i)) 1) 1000))
                  \<and> pingResults h'
                      = Some [failedPing (probeErrorMessage (exampleProbe (ip (?hs ! i)) 1) 1000)])
            \<and> (probeFailed (exampleProbe (ip (?hs ! i)) 1) 1000 \<longrightarrow>
                 \<not> isReachable h' \<and> avgLatency h' = None \<and> lastPingIsTimeout h')"
    by blast
  have l0: "(0::nat) < length ?hs" and l1: "(1::nat) < length ?hs" and l2: "(2::nat) < length ?hs"
    by simp_all
  from b [THEN spec, THEN mp, OF l0] obtain t0 g0 where
    g0: "rs ! 0 = Fulfilled g0" "hop g0 = hop (?hs ! 0)" "ip g0 = ip (?hs ! 0)"
        "\<forall>t' r. exampleProbe (ip (?hs ! 0)) 1 = ProbeReturns (Settles t' (Fulfilled r)) \<and> t' \<le> 1000 \<longrightarrow>
                  t0 = t' \<and> g0 = applyPingResult (0 + t') (?hs ! 0) r
                  \<and> isReachable g0 = alive r
                  \<and> avgLatency g0 = (if alive r then truthyNumber (time r) else None)
                  \<and> pingResults g0 = Some [r]
                  \<and> (\<exists>ph. pingHistory g0 = Some ph \<and> ph \<noteq> []
                        \<and> p_latency (last ph) = truthyNumber (time r)
                        \<and> p_isReachable (last ph) = alive r
                        \<and> p_timestamp (last ph) = 0 + t')"
    by blast
  from g0(4) [THEN spec, THEN spec, THEN mp, OF p0]
  have g0': "isReachable g0 = alive ?r"
       "avgLatency g0 = (if alive ?r then truthyNumber (time ?r) else None)"
       "pingResults g0 = Some [?r]"
    by blast+
  have r0: "\<exists>h'. rs ! 0 = Fulfilled h' \<and> hop h' = 1 \<and> ip h' = Some ''10.0.0.1''
            \<and> isReachable h' \<and> avgLatency h' = Some 12 \<and> pingResults h' = Some [?r]"
    using g0(1,2,3) g0' h0 by (simp add: truthyNumber_def)
  from b [THEN spec, THEN mp, OF l1] obtain t1 g1 where
    g1: "rs ! 1 = Fulfilled g1" "hop g1 = hop (?hs ! 1)"
        "probeErrorOrTimeout (exampleProbe (ip (?hs ! 1)) 1) 1000 \<longrightarrow>
           g1 = applyPingResult (0 + t1) (?hs ! 1)
                  (failedPing (probeErrorMessage (exampleProbe (ip (?hs ! 1)) 1) 1000))
           \<and> pingResults g1
                = Some [failedPing (probeErrorMessage (exampleProbe (ip (?hs ! 1)) 1) 1000)]"
        "probeFailed (exampleProbe (ip (?hs ! 1)) 1) 1000 \<longrightarrow>
           \<not> isReachable g1 \<and> avgLatency g1 = None \<and> lastPingIsTimeout g1"
    by blast
  have r1: "\<exists>h'. rs ! 1 = Fulfilled h' \<and> hop h' = 2 \<and> \<not> isReachable h' \<and> lastPingIsTimeout h'
            \<and> pingResults h' = Some [failedPing ''Ping timeout'']"
    using g1(1,2) g1(3) [THEN mp, OF e1, THEN conjunct2] g1(4) [THEN mp, OF f1] h1 m1 by simp
  from b [THEN spec, THEN mp, OF l2] obtain t2 g2 where
    g2: "rs ! 2 = Fulfilled g2" "hop g2 = hop (?hs ! 2)"
        "probeErrorOrTimeout (exampleProbe (ip (?hs ! 2)) 1) 1000 \<longrightarrow>
           g2 = applyPingResult (0 + t2) (?hs ! 2)
                  (failedPing (probeErrorMessage (exampleProbe (ip (?hs ! 2)) 1) 1000))
           \<and> pingResults g2
                = Some [failedPing (probeErrorMessage (exampleProbe (ip (?hs ! 2)) 1) 1000)]"
        "probeFailed (exampleProbe (ip (?hs ! 2)) 1) 1000 \<longrightarrow>
           \<not> isReachable g2 \<and> avgLatency g2 = None \<and> lastPingIsTimeout g2"
    by blast
  have r2: "\<exists>h'. rs ! 2 = Fulfilled h' \<and> hop h' = 3 \<and> \<not> isReachable h' \<and> lastPingIsTimeout h'
            \<and> pingResults h' = Some [failedPing ''EHOSTUNREACH'']"
    using g2(1,2) g2(3) [THEN mp, OF e2, THEN conjunct2] g2(4) [THEN mp, OF f2] h2 m2 by simp
  have l3: "length rs = 3" using a(3) by simp
  from a(1,2) l3 r0 r1 r2 show ?thesis by blast
qed

subsection \<open>C2: the history windows of updateHopHistory\<close>

lemma shiftIfOver_lastN:
  assumes "0 < n" and "length es \<le> 1"
  shows "shiftIfOver n (lastN n xs @ es) = lastN n (xs @ es)"
proof (cases es)
  case Nil
  have "length (lastN n xs) \<le> n" by (simp add: lastN_def)
  with Nil show ?thesis by (simp add: shiftIfOver_def)
next
  case (Cons e es')
  with assms(2) have es: "es = [e]" by simp
  show ?thesis
  proof (cases "length xs < n")
    case True
    then show ?thesis by (simp add: es shiftIfOver_def lastN_def)
  next
    case False
    then have "length xs - n < length xs" using assms(1) by simp
    then have "tl (drop (length xs - n) xs @ [e]) = drop (Suc (length xs - n)) xs @ [e]"
      by (simp add: tl_append2 drop_Suc tl_drop)
    moreover have "Suc (length xs) - n = Suc (length xs - n)" using False by simp
    moreover have "Suc 0 - n = 0" using assms(1) by simp
    ultimately show ?thesis using False by (simp add: es shiftIfOver_def lastN_def)
  qed
qed

lemma pingEntriesOf_length: "length (pingEntriesOf h) \<le> 1"
  by (simp add: pingEntriesOf_def split: option.splits)

lemma length_lastN: "length (lastN n xs) = min (length xs) n"
  by (simp add: lastN_def)

lemma map_of_update_alist:
  "map_of (AList.update k v m) k' = (if k' = k then Some v else map_of m k')"
  by (simp add: update_conv')

lemma updateHopHistory_step:
  assumes "historyInv m obs"
  shows "\<exists>h' m'. updateHopHistory x m = Inr (h', m') \<and> historyInv m' (obs @ [x])"
proof -
  let ?k = "hopKeyOf x"
  from assms have d: "distinct (map fst m)" by (simp add: historyInv_def)
  from assms have inv: "\<And>k. case map_of m k of
              None \<Rightarrow> observationsOf k obs = []
            | Some r \<Rightarrow>
                observationsOf k obs \<noteq> [] \<and>
                history r = Some (lastN 10 (map runEntryOf (observationsOf k obs))) \<and>
                pingHistory r =
                  Some (lastN 20 (concat (map pingEntriesOf (observationsOf k obs))))"
    by (simp add: historyInv_def)
  define m1 where "m1 = (if map_of m ?k = None
                      then AList.update ?k (x\<lparr>history := Some [], pingHistory := Some []\<rparr>) m
                      else m)"
  have "\<exists>h. map_of m1 ?k = Some h
          \<and> history h = Some (lastN 10 (map runEntryOf (observationsOf ?k obs)))
          \<and> pingHistory h = Some (lastN 20 (concat (map pingEntriesOf (observationsOf ?k obs))))"
  proof (cases "map_of m ?k")
    case None
    with inv [of ?k] have "observationsOf ?k obs = []" by simp
    with None show ?thesis by (simp add: m1_def map_of_update_alist lastN_def)
  next
    case (Some r)
    with inv [of ?k] show ?thesis by (simp add: m1_def)
  qed
  then obtain h where h: "map_of m1 ?k = Some h"
     "history h = Some (lastN 10 (map runEntryOf (observationsOf ?k obs)))"
     "pingHistory h = Some (lastN 20 (concat (map pingEntriesOf (observationsOf ?k obs))))"
    by blast
  define h' where "h' = h\<lparr>history := Some (lastN 10 (map runEntryOf (observationsOf ?k (obs @ [x])))),
      pingHistory := Some (lastN 20 (concat (map pingEntriesOf (observationsOf ?k (obs @ [x])))))\<rparr>"
  have obsk: "observationsOf ?k (obs @ [x]) = observationsOf ?k obs @ [x]"
    by (simp add: observationsOf_def)
  have s1: "shiftIfOver 10 (lastN 10 (map runEntryOf (observationsOf ?k obs)) @ [runEntryOf x])
            = lastN 10 (map runEntryOf (observationsOf ?k (obs @ [x])))"
    using shiftIfOver_lastN [of 10 "[runEntryOf x]" "map runEntryOf (observationsOf ?k obs)"]
    by (simp add: obsk)
  have s2: "shiftIfOver 20 (lastN 20 (concat (map pingEntriesOf (observationsOf ?k obs)))
                @ pingEntriesOf x)
            = lastN 20 (concat (map pingEntriesOf (observationsOf ?k (obs @ [x]))))"
    using shiftIfOver_lastN [of 20 "pingEntriesOf x"
            "concat (map pingEntriesOf (observationsOf ?k obs))"] pingEntriesOf_length [of x]
    by (simp add: obsk)
  have res: "updateHopHistory x m = Inr (h', AList.update ?k h' m1)"
    using h s1 s2 by (simp add: updateHopHistory_def Let_def m1_def [symmetric] h'_def)
  have d1: "distinct (map fst m1)" using d by (simp add: m1_def distinct_update)
  have "historyInv (AList.update ?k h' m1) (obs @ [x])"
    unfolding historyInv_def
  proof (intro conjI allI)
    show "distinct (map fst (AList.update ?k h' m1))" using d1 by (simp add: distinct_update)
  next
    fix k
    show "case map_of (AList.update ?k h' m1) k of
              None \<Rightarrow> observationsOf k (obs @ [x]) = []
            | Some r \<Rightarrow>
                observationsOf k (obs @ [x]) \<noteq> [] \<and>
                history r = Some (lastN 10 (map runEntryOf (observationsOf k (obs @ [x])))) \<and>
                pingHistory r =
                  Some (lastN 20 (concat (map pingEntriesOf (observationsOf k (obs @ [x])))))"
    proof (cases "k = ?k")
      case True
      then show ?thesis by (simp add: map_of_update_alist h'_def obsk)
    next
      case False
      then have "map_of (AList.update ?k h' m1) k = map_of m k"
        by (simp add: map_of_update_alist m1_def)
      moreover have "observationsOf k (obs @ [x]) = observationsOf k obs"
        using False by (auto simp: observationsOf_def)
      ultimately show ?thesis using inv [of k] by (simp split: option.splits)
    qed
  qed
  with res show ?thesis by blast
qed

lemma updateHopHistories_inv:
  "historyInv m done \<Longrightarrow>
     \<exists>m'. updateHopHistories obs m = Inr m' \<and> historyInv m' (done @ obs)"
proof (induction obs arbitrary: m "done")
  case Nil
  then show ?case by simp
next
  case (Cons x obs)
  from updateHopHistory_step [OF Cons.prems, of x] obtain h' m1 where
    s: "updateHopHistory x m = Inr (h', m1)" "historyInv m1 (done @ [x])" by blast
  from Cons.IH [OF s(2)] obtain m' where
    "updateHopHistories obs m1 = Inr m'" "historyInv m' ((done @ [x]) @ obs)" by blast
  with s(1) show ?case by simp
qed

lemma historyInv_empty: "historyInv [] []"
  by (simp add: historyInv_def observationsOf_def)

lemma count_key_distinct:
  "distinct (map fst m) \<Longrightarrow> map_of m k = Some r \<Longrightarrow> length (filter (\<lambda>e. fst e = k) m) = 1"
proof (induction m)
  case Nil
  then show ?case by simp
next
  case (Cons e m)
  show ?case
  proof (cases "fst e = k")
    case True
    with Cons.prems(1) have "filter (\<lambda>e. fst e = k) m = []"
      by (fastforce simp: filter_empty_conv image_iff)
    with True show ?thesis by simp
  next
    case False
    with Cons show ?thesis by (cases e) auto
  qed
qed

text \<open>
  The hop key of an observation built by \<open>processHop\<close> is a function of the hop
  index and the address of the raw hop alone.
\<close>

lemma rawHopKey_nonempty: "rawHopKey r \<noteq> []"
  by (simp add: rawHopKey_def)

lemma processHop_hopKey:
  assumes "processHop dns probe cfg runNo sid pingNow now counters d
             = Some (Fulfilled (h, counters'))"
    and "parseHopData d = Inr r"
  shows "hopKeyOf h = rawHopKey r"
proof -
  have "hopKey h = rawHopKey r"
    using assms
    by (auto simp: processHop_def pingHop_def addRecentPing_def Let_def
        split: if_splits option.splits promise.splits outcome.splits)
  then show ?thesis by (simp add: hopKeyOf_def rawHopKey_nonempty)
qed

text \<open>
  C2: let any sequence of observations be applied with \<open>updateHopHistory\<close> to a
  session's (initially empty) hop map, and let \<open>k\<close> be a hop key carried by \<open>N \<ge> 1\<close>
  of them (the observations of one hop index and address: \<open>processHop\<close> derives the
  key from these two). Then, after the whole sequence as after each of its prefixes, no
  call has failed, the map
  holds exactly one record under \<open>k\<close>, its run history is the last \<open>min N 10\<close>
  run entries of these observations in observation order, and its ping history is the
  last (at most 20) ping entries of these observations in observation order: the oldest
  entry is evicted first.
\<close>

theorem C2_updateHopHistory_windows:
  assumes "observationsOf k obs \<noteq> []"
  shows "\<exists>m r. updateHopHistories obs [] = Inr m
           \<and> map_of m k = Some r
           \<and> length (filter (\<lambda>e. fst e = k) m) = 1
           \<and> history r = Some (lastN 10 (map runEntryOf (observationsOf k obs)))
           \<and> length (lastN 10 (map runEntryOf (observationsOf k obs)))
               = min (length (observationsOf k obs)) 10
           \<and> pingHistory r = Some (lastN 20 (concat (map pingEntriesOf (observationsOf k obs))))
           \<and> length (lastN 20 (concat (map pingEntriesOf (observationsOf k obs)))) \<le> 20"
proof -
  from updateHopHistories_inv [OF historyInv_empty, of obs] obtain m where
    m: "updateHopHistories obs [] = Inr m" "historyInv m obs" by auto
  from m(2) have d: "distinct (map fst m)" by (simp add: historyInv_def)
  from m(2) have "case map_of m k of
              None \<Rightarrow> observationsOf k obs = []
            | Some r \<Rightarrow>
                observationsOf k obs \<noteq> [] \<and>
                history r = Some (lastN 10 (map runEntryOf (observationsOf k obs))) \<and>
                pingHistory r =
                  Some (lastN 20 (concat (map pingEntriesOf (observationsOf k obs))))"
    by (simp add: historyInv_def)
  with assms obtain r where r: "map_of m k = Some r"
     "history r = Some (lastN 10 (map runEntryOf (observationsOf k obs)))"
     "pingHistory r = Some (lastN 20 (concat (map pingEntriesOf (observationsOf k obs))))"
    by (auto split: option.splits)
  from count_key_distinct [OF d r(1)] m(1) r show ?thesis
    by (simp add: length_lastN)
qed

theorem C2_updateHopHistory_witness:
  "\<exists>m r hs ps. updateHopHistories exampleRuns [] = Inr m
      \<and> map_of m ''3_10.0.0.3'' = Some r
      \<and> length (filter (\<lambda>e. fst e = ''3_10.0.0.3'') m) = 1
      \<and> history r = Some hs
      \<and> map r_runNumber hs
          = [Some 3, Some 4, Some 5, Some 6, Some 7, Some 8, Some 9, Some 10, Some 11, Some 12]
      \<and> pingHistory r = Some ps \<and> length ps = 12"
proof -
  have k: "observationsOf ''3_10.0.0.3'' exampleRuns = exampleRuns"
    by (simp add: observationsOf_def exampleRuns_def hopKeyOf_def sampleHop_def
        natToString.simps)
  have ne: "observationsOf ''3_10.0.0.3'' exampleRuns \<noteq> []"
    by (simp add: k) (simp add: exampleRuns_def)
  have h: "map r_runNumber (lastN 10 (map runEntryOf exampleRuns))
          = [Some 3, Some 4, Some 5, Some 6, Some 7, Some 8, Some 9, Some 10, Some 11, Some 12]"
    by (simp add: exampleRuns_def lastN_def runEntryOf_def)
  have p: "length (lastN 20 (concat (map pingEntriesOf exampleRuns))) = 12"
    by (simp add: exampleRuns_def lastN_def pingEntriesOf_def truthyNumber_def sampleHop_def)
  from C2_updateHopHistory_windows [OF ne] k h p show ?thesis
    by auto
qed

subsection \<open>C3: skipped, probed and limited hops\<close>

lemma hopsToPing_eq:
  "filter (\<lambda>item. \<not> d_shouldSkip (a_analysis item)) (analyseHops deref cfg vs)
     = analyseHops deref cfg (keepEligible deref cfg vs)"
  by (induction vs) (auto simp: analyseHops_def keepEligible_def)

lemma skipped_eq:
  "filter (\<lambda>item. d_shouldSkip (a_analysis item)) (analyseHops deref cfg vs)
     = analyseHops deref cfg (filter (\<lambda>r. d_shouldSkip (shouldSkipHop (deref r) cfg)) vs)"
  by (induction vs) (auto simp: analyseHops_def)

lemma a_hop_analyseHops: "map a_hop (analyseHops deref cfg vs) = vs"
  by (simp add: analyseHops_def comp_def)

lemma analyseHops_priority:
  "item \<in> set (analyseHops deref cfg vs) \<Longrightarrow>
     a_priority item = getHopPriority (deref (a_hop item))
     \<and> a_analysis item = shouldSkipHop (deref (a_hop item)) cfg \<and> a_hop item \<in> set vs"
  by (auto simp: analyseHops_def)

lemma selectHops_skipped:
  "map a_hop (skippedHops (selectHops deref cfg vs))
     = filter (\<lambda>r. d_shouldSkip (shouldSkipHop (deref r) cfg)) vs"
  by (simp add: selectHops_def Let_def skipped_eq a_hop_analyseHops)

lemma selectHops_kept_mset:
  "mset (finalHopsToPing (selectHops deref cfg vs)) + mset (limitedHops (selectHops deref cfg vs))
     = mset (analyseHops deref cfg (keepEligible deref cfg vs))"
  by (simp add: selectHops_def Let_def hopsToPing_eq flip: mset_append)

lemma selectHops_partition:
  "mset (map a_hop (skippedHops (selectHops deref cfg vs)))
   + mset (map a_hop (finalHopsToPing (selectHops deref cfg vs)))
   + mset (map a_hop (limitedHops (selectHops deref cfg vs))) = mset vs"
proof -
  have "mset (map a_hop (finalHopsToPing (selectHops deref cfg vs)))
        + mset (map a_hop (limitedHops (selectHops deref cfg vs)))
        = image_mset a_hop (mset (analyseHops deref cfg (keepEligible deref cfg vs)))"
    using selectHops_kept_mset [of deref cfg vs, symmetric] by simp
  also have "\<dots> = mset (keepEligible deref cfg vs)"
    using a_hop_analyseHops [of deref cfg "keepEligible deref cfg vs"] by (metis mset_map)
  finally show ?thesis
    by (simp add: selectHops_skipped keepEligible_def add.assoc)
qed

lemma selectHops_kept_items:
  assumes "item \<in> set (finalHopsToPing (selectHops deref cfg vs)) \<union> set (limitedHops (selectHops deref cfg vs))"
  shows "item \<in> set (analyseHops deref cfg (keepEligible deref cfg vs))"
proof -
  from assms have "item \<in># mset (finalHopsToPing (selectHops deref cfg vs))
                          + mset (limitedHops (selectHops deref cfg vs))"
    by auto
  then show ?thesis by (simp add: selectHops_kept_mset)
qed

lemma selectHops_kept_not_skipped:
  assumes "item \<in> set (finalHopsToPing (selectHops deref cfg vs)) \<union> set (limitedHops (selectHops deref cfg vs))"
  shows "\<not> d_shouldSkip (shouldSkipHop (deref (a_hop item)) cfg) \<and> a_hop item \<in> set vs
         \<and> a_priority item = getHopPriority (deref (a_hop item))"
  using analyseHops_priority [OF selectHops_kept_items [OF assms]]
  by (auto simp: keepEligible_def)

lemma selectHops_limited:
  assumes "maxHopsToProcess cfg \<noteq> 0"
    and "length (keepEligible deref cfg vs) > maxHopsToProcess cfg"
  shows "length (finalHopsToPing (selectHops deref cfg vs)) = maxHopsToProcess cfg"
    and "length (limitedHops (selectHops deref cfg vs))
           = length (keepEligible deref cfg vs) - maxHopsToProcess cfg"
    and "sorted (map a_priority
           (finalHopsToPing (selectHops deref cfg vs) @ limitedHops (selectHops deref cfg vs)))"
    and "\<forall>a \<in> set (finalHopsToPing (selectHops deref cfg vs)).
           \<forall>b \<in> set (limitedHops (selectHops deref cfg vs)). a_priority a \<le> a_priority b"
proof -
  let ?keep = "analyseHops deref cfg (keepEligible deref cfg vs)"
  let ?n = "maxHopsToProcess cfg"
  have len: "length ?keep = length (keepEligible deref cfg vs)" by (simp add: analyseHops_def)
  have f: "finalHopsToPing (selectHops deref cfg vs) = take ?n (sort_key a_priority ?keep)"
    and l: "limitedHops (selectHops deref cfg vs) = drop ?n (sort_key a_priority ?keep)"
    using assms by (simp_all add: selectHops_def Let_def hopsToPing_eq len)
  show "length (finalHopsToPing (selectHops deref cfg vs)) = ?n"
    using assms(2) by (simp add: f len)
  show "length (limitedHops (selectHops deref cfg vs)) = length (keepEligible deref cfg vs) - ?n"
    by (simp add: l len)
  show s: "sorted (map a_priority
           (finalHopsToPing (selectHops deref cfg vs) @ limitedHops (selectHops deref cfg vs)))"
    by (simp only: f l append_take_drop_id sorted_sort_key)
  then show "\<forall>a \<in> set (finalHopsToPing (selectHops deref cfg vs)).
           \<forall>b \<in> set (limitedHops (selectHops deref cfg vs)). a_priority a \<le> a_priority b"
    by (auto simp: sorted_append)
qed

lemma selectHops_unlimited:
  assumes "\<not> (maxHopsToProcess cfg \<noteq> 0 \<and> length (keepEligible deref cfg vs) > maxHopsToProcess cfg)"
  shows "map a_hop (finalHopsToPing (selectHops deref cfg vs)) = keepEligible deref cfg vs"
    and "limitedHops (selectHops deref cfg vs) = []"
proof -
  have len: "length (analyseHops deref cfg (keepEligible deref cfg vs)) = length (keepEligible deref cfg vs)"
    by (simp add: analyseHops_def)
  show "map a_hop (finalHopsToPing (selectHops deref cfg vs)) = keepEligible deref cfg vs"
    using assms by (auto simp: selectHops_def Let_def hopsToPing_eq len a_hop_analyseHops)
  show "limitedHops (selectHops deref cfg vs) = []"
    using assms by (auto simp: selectHops_def Let_def hopsToPing_eq len)
qed

lemma shouldSkipHop_above_50:
  assumes "avgLatency h = Some l" and "l > 50"
  shows "d_shouldSkip (shouldSkipHop h cfg)"
proof -
  have "shouldSkip (analyzeSlowHop h)"
    using assms analyzeSlowHop_above_50 [of h] by (simp add: latencyOrZero_def)
  then show ?thesis by (simp add: shouldSkipHop_def Let_def)
qed

lemma shouldSkipHop_fast:
  assumes "avgLatency h = Some l" and "l \<le> 20" and "packetLoss h = None"
    and "pingHistory h = None"
    and "skipSlowHops cfg \<longrightarrow> l \<le> real_of_int (if slowHopThreshold cfg = 0 then 50 else slowHopThreshold cfg)"
  shows "\<not> d_shouldSkip (shouldSkipHop h cfg)"
  using assms by (auto simp: shouldSkipHop_def analyzeSlowHop_def Let_def)

text \<open>
  In \<open>trace\<close> itself the hops reach this step as \<open>processHop\<close> built them
  without pinging: they have no probe latency and no packet loss yet, so none of them is
  skip-recommended and each has priority 1.
\<close>

lemma processHop_unprobed:
  assumes "processHop dns probe cfg runNo sid False now counters d
             = Some (Fulfilled (h, counters'))"
  shows "\<not> d_shouldSkip (shouldSkipHop h cfg') \<and> getHopPriority h = 1"
proof -
  have "avgLatency h = None \<and> packetLoss h = None"
    using assms
    by (auto simp: processHop_def Let_def split: if_splits sum.splits)
  then show ?thesis
    by (simp add: shouldSkipHop_def analyzeSlowHop_def getHopPriority_def Let_def)
qed

text \<open>
  C3: the step that chooses the hops to probe splits the valid hops into three classes
  that together are exactly the valid hops (disjoint when the hops are distinct): the
  skipped hops are exactly those \<open>shouldSkipHop\<close> marks skip-recommended; no other
  hop is skip-recommended; when the keep-eligible hops exceed \<open>maxHopsToProcess\<close>,
  exactly \<open>maxHopsToProcess\<close> of them are probed, the remainder is limited (not
  skipped), and no limited hop has a better (smaller) priority than a probed one;
  otherwise every keep-eligible hop is probed and none is limited. With
  \<open>skipSlowHops = true\<close> and \<open>slowHopThreshold = 50\<close>, hops with latencies 60
  and 200 are skip-recommended and a hop with latency 10 is not.
\<close>

theorem C3_skip_limit_partition:
  "mset (map a_hop (skippedHops (selectHops deref cfg vs)))
     + mset (map a_hop (finalHopsToPing (selectHops deref cfg vs)))
     + mset (map a_hop (limitedHops (selectHops deref cfg vs))) = mset vs
   \<and> (distinct vs \<longrightarrow>
        distinct (map a_hop (skippedHops (selectHops deref cfg vs))
                  @ map a_hop (finalHopsToPing (selectHops deref cfg vs))
                  @ map a_hop (limitedHops (selectHops deref cfg vs))))
   \<and> map a_hop (skippedHops (selectHops deref cfg vs))
        = filter (\<lambda>r. d_shouldSkip (shouldSkipHop (deref r) cfg)) vs
   \<and> (\<forall>item \<in> set (finalHopsToPing (selectHops deref cfg vs)) \<union> set (limitedHops (selectHops deref cfg vs)).
        \<not> d_shouldSkip (shouldSkipHop (deref (a_hop item)) cfg) \<and> a_hop item \<in> set vs)
   \<and> (maxHopsToProcess cfg \<noteq> 0 \<and> length (keepEligible deref cfg vs) > maxHopsToProcess cfg \<longrightarrow>
        length (finalHopsToPing (selectHops deref cfg vs)) = maxHopsToProcess cfg
        \<and> length (limitedHops (selectHops deref cfg vs))
             = length (keepEligible deref cfg vs) - maxHopsToProcess cfg
        \<and> (\<forall>a \<in> set (finalHopsToPing (selectHops deref cfg vs)).
              \<forall>b \<in> set (limitedHops (selectHops deref cfg vs)).
                getHopPriority (deref (a_hop a)) \<le> getHopPriority (deref (a_hop b))))
   \<and> (\<not> (maxHopsToProcess cfg \<noteq> 0 \<and> length (keepEligible deref cfg vs) > maxHopsToProcess cfg) \<longrightarrow>
        map a_hop (finalHopsToPing (selectHops deref cfg vs)) = keepEligible deref cfg vs
        \<and> limitedHops (selectHops deref cfg vs) = [])
   \<and> (skipSlowHops cfg \<and> slowHopThreshold cfg = 50 \<longrightarrow>
        d_shouldSkip (shouldSkipHop (sampleHop i a (Some 60) None) cfg)
        \<and> d_shouldSkip (shouldSkipHop (sampleHop i a (Some 200) None) cfg)
        \<and> \<not> d_shouldSkip (shouldSkipHop (sampleHop i a (Some 10) None) cfg))"
proof -
  let ?sel = "selectHops deref cfg vs"
  have p: "mset (map a_hop (skippedHops ?sel)) + mset (map a_hop (finalHopsToPing ?sel))
             + mset (map a_hop (limitedHops ?sel)) = mset vs"
    by (rule selectHops_partition)
  have d: "distinct vs \<longrightarrow>
        distinct (map a_hop (skippedHops ?sel) @ map a_hop (finalHopsToPing ?sel)
                  @ map a_hop (limitedHops ?sel))"
  proof
    assume dv: "distinct vs"
    have "mset (map a_hop (skippedHops ?sel) @ map a_hop (finalHopsToPing ?sel)
                  @ map a_hop (limitedHops ?sel)) = mset vs"
      using p by (simp add: add.assoc)
    from mset_eq_imp_distinct_iff [OF this] dv
    show "distinct (map a_hop (skippedHops ?sel) @ map a_hop (finalHopsToPing ?sel)
                  @ map a_hop (limitedHops ?sel))" by blast
  qed
  have k: "\<forall>item \<in> set (finalHopsToPing ?sel) \<union> set (limitedHops ?sel).
        \<not> d_shouldSkip (shouldSkipHop (deref (a_hop item)) cfg) \<and> a_hop item \<in> set vs"
    using selectHops_kept_not_skipped [of _ deref cfg vs] by blast
  have l: "maxHopsToProcess cfg \<noteq> 0 \<and> length (keepEligible deref cfg vs) > maxHopsToProcess cfg \<longrightarrow>
        length (finalHopsToPing ?sel) = maxHopsToProcess cfg
        \<and> length (limitedHops ?sel) = length (keepEligible deref cfg vs) - maxHopsToProcess cfg
        \<and> (\<forall>a \<in> set (finalHopsToPing ?sel). \<forall>b \<in> set (limitedHops ?sel).
              getHopPriority (deref (a_hop a)) \<le> getHopPriority (deref (a_hop b)))"
  proof
    assume h: "maxHopsToProcess cfg \<noteq> 0 \<and> length (keepEligible deref cfg vs) > maxHopsToProcess cfg"
    then have h1: "maxHopsToProcess cfg \<noteq> 0"
      and h2: "length (keepEligible deref cfg vs) > maxHopsToProcess cfg" by simp_all
    have "\<forall>a \<in> set (finalHopsToPing ?sel). \<forall>b \<in> set (limitedHops ?sel).
              getHopPriority (deref (a_hop a)) \<le> getHopPriority (deref (a_hop b))"
    proof (intro ballI)
      fix a b assume a: "a \<in> set (finalHopsToPing ?sel)" and b: "b \<in> set (limitedHops ?sel)"
      from selectHops_limited(4) [OF h1 h2] a b have "a_priority a \<le> a_priority b" by blast
      moreover have "a_priority a = getHopPriority (deref (a_hop a))"
        using selectHops_kept_not_skipped [of a deref cfg vs] a by blast
      moreover have "a_priority b = getHopPriority (deref (a_hop b))"
        using selectHops_kept_not_skipped [of b deref cfg vs] b by blast
      ultimately show "getHopPriority (deref (a_hop a)) \<le> getHopPriority (deref (a_hop b))" by simp
    qed
    with selectHops_limited(1,2) [OF h1 h2]
    show "length (finalHopsToPing ?sel) = maxHopsToProcess cfg
        \<and> length (limitedHops ?sel) = length (keepEligible deref cfg vs) - maxHopsToProcess cfg
        \<and> (\<forall>a \<in> set (finalHopsToPing ?sel). \<forall>b \<in> set (limitedHops ?sel).
              getHopPriority (deref (a_hop a)) \<le> getHopPriority (deref (a_hop b)))"
      by blast
  qed
  have u: "\<not> (maxHopsToProcess cfg \<noteq> 0 \<and> length (keepEligible deref cfg vs) > maxHopsToProcess cfg) \<longrightarrow>
        map a_hop (finalHopsToPing ?sel) = keepEligible deref cfg vs \<and> limitedHops ?sel = []"
    using selectHops_unlimited [of cfg deref vs] by blast
  have e: "skipSlowHops cfg \<and> slowHopThreshold cfg = 50 \<longrightarrow>
        d_shouldSkip (shouldSkipHop (sampleHop i a (Some 60) None) cfg)
        \<and> d_shouldSkip (shouldSkipHop (sampleHop i a (Some 200) None) cfg)
        \<and> \<not> d_shouldSkip (shouldSkipHop (sampleHop i a (Some 10) None) cfg)"
    using shouldSkipHop_above_50 [of "sampleHop i a (Some 60) None" 60 cfg]
      shouldSkipHop_above_50 [of "sampleHop i a (Some 200) None" 200 cfg]
      shouldSkipHop_fast [of "sampleHop i a (Some 10) None" 10 cfg]
    by (simp add: sampleHop_def)
  from p d selectHops_skipped [of deref cfg vs] k l u e show ?thesis by blast
qed

theorem C3_skip_limit_witness:
  "map (hop \<circ> a_hop) (skippedHops (selectHops (\<lambda>h. h) (exampleConfig\<lparr>maxHopsToProcess := 1\<rparr>) exampleHops))
     = [2, 4]
   \<and> map (hop \<circ> a_hop) (finalHopsToPing (selectHops (\<lambda>h. h) (exampleConfig\<lparr>maxHopsToProcess := 1\<rparr>) exampleHops))
     = [3]
   \<and> map (hop \<circ> a_hop) (limitedHops (selectHops (\<lambda>h. h) (exampleConfig\<lparr>maxHopsToProcess := 1\<rparr>) exampleHops))
     = [5, 1]
   \<and> length (limitedHops (selectHops (\<lambda>h. h) (exampleConfig\<lparr>maxHopsToProcess := 1\<rparr>) exampleHops)) = 2
   \<and> distinct (map a_hop (skippedHops (selectHops (\<lambda>h. h) (exampleConfig\<lparr>maxHopsToProcess := 1\<rparr>) exampleHops))
        @ map a_hop (finalHopsToPing (selectHops (\<lambda>h. h) (exampleConfig\<lparr>maxHopsToProcess := 1\<rparr>) exampleHops))
        @ map a_hop (limitedHops (selectHops (\<lambda>h. h) (exampleConfig\<lparr>maxHopsToProcess := 1\<rparr>) exampleHops)))
   \<and> limitedHops (selectHops (\<lambda>h. h) exampleConfig exampleHops) = []
   \<and> map hop (map a_hop (finalHopsToPing (selectHops (\<lambda>h. h) exampleConfig exampleHops)))
        = [1, 3, 5]
   \<and> d_shouldSkip (shouldSkipHop (sampleHop 2 ''10.0.0.2'' (Some 60) None) exampleConfig)
   \<and> d_shouldSkip (shouldSkipHop (sampleHop 2 ''10.0.0.2'' (Some 200) None) exampleConfig)
   \<and> \<not> d_shouldSkip (shouldSkipHop (sampleHop 2 ''10.0.0.2'' (Some 10) None) exampleConfig)"
proof -
  let ?cfg = "exampleConfig\<lparr>maxHopsToProcess := 1\<rparr>"
  have keep: "keepEligible (\<lambda>h. h) ?cfg exampleHops
        = [sampleHop 1 ''10.0.0.1'' (Some 15) None, sampleHop 3 ''10.0.0.3'' (Some 3) None,
           sampleHop 5 ''10.0.0.5'' (Some 7) None]"
    by (simp add: keepEligible_def exampleHops_def exampleConfig_def shouldSkipHop_def
        analyzeSlowHop_def sampleHop_def Let_def)
  have keep': "keepEligible (\<lambda>h. h) exampleConfig exampleHops
        = [sampleHop 1 ''10.0.0.1'' (Some 15) None, sampleHop 3 ''10.0.0.3'' (Some 3) None,
           sampleHop 5 ''10.0.0.5'' (Some 7) None]"
    by (simp add: keepEligible_def exampleHops_def exampleConfig_def shouldSkipHop_def
        analyzeSlowHop_def sampleHop_def Let_def)
  have len: "length (keepEligible (\<lambda>h. h) ?cfg exampleHops) = 3" by (simp only: keep) simp
  have len': "length (keepEligible (\<lambda>h. h) exampleConfig exampleHops) = 3"
    by (simp only: keep') simp
  have mx: "maxHopsToProcess ?cfg = 1" by simp
  have mx': "maxHopsToProcess exampleConfig = 15" by (simp add: exampleConfig_def)
  have lim: "maxHopsToProcess ?cfg \<noteq> 0 \<and> length (keepEligible (\<lambda>h. h) ?cfg exampleHops) > maxHopsToProcess ?cfg"
    by (simp only: len mx) simp
  have unl: "\<not> (maxHopsToProcess exampleConfig \<noteq> 0
               \<and> length (keepEligible (\<lambda>h. h) exampleConfig exampleHops) > maxHopsToProcess exampleConfig)"
    by (simp only: len' mx') simp
  have thr: "skipSlowHops exampleConfig \<and> slowHopThreshold exampleConfig = 50"
    by (simp add: exampleConfig_def)
  have dis: "distinct exampleHops"
    by (simp add: exampleHops_def sampleHop_def)
  have ev: "map (hop \<circ> a_hop) (skippedHops (selectHops (\<lambda>h. h) ?cfg exampleHops)) = [2, 4]
      \<and> map (hop \<circ> a_hop) (finalHopsToPing (selectHops (\<lambda>h. h) ?cfg exampleHops)) = [3]
      \<and> map (hop \<circ> a_hop) (limitedHops (selectHops (\<lambda>h. h) ?cfg exampleHops)) = [5, 1]"
    by (simp add: selectHops_def analyseHops_def exampleHops_def exampleConfig_def
        shouldSkipHop_def analyzeSlowHop_def getHopPriority_def sampleHop_def Let_def)
  note T = C3_skip_limit_partition [of "\<lambda>h. h" ?cfg exampleHops 0 "[]"]
  note t2 = T [THEN conjunct2, THEN conjunct1, THEN mp, OF dis]
  note t5 = T [THEN conjunct2, THEN conjunct2, THEN conjunct2, THEN conjunct2, THEN conjunct1,
               THEN mp, OF lim, THEN conjunct2, THEN conjunct1]
  from t5 len have l2: "length (limitedHops (selectHops (\<lambda>h. h) ?cfg exampleHops)) = 2"
    by simp
  note U = C3_skip_limit_partition [of "\<lambda>h. h" exampleConfig exampleHops 2 "''10.0.0.2''"]
  note u6 = U [THEN conjunct2, THEN conjunct2, THEN conjunct2, THEN conjunct2, THEN conjunct2,
               THEN conjunct1, THEN mp, OF unl]
  note u7 = U [THEN conjunct2, THEN conjunct2, THEN conjunct2, THEN conjunct2, THEN conjunct2,
               THEN conjunct2, THEN mp, OF thr]
  from u6 have f: "map hop (map a_hop (finalHopsToPing (selectHops (\<lambda>h. h) exampleConfig exampleHops)))
        = [1, 3, 5]"
    by (simp only: keep') (simp add: sampleHop_def)
  from u6 have e: "limitedHops (selectHops (\<lambda>h. h) exampleConfig exampleHops) = []" by simp
  from ev t2 l2 e f u7 show ?thesis by blast
qed

subsection \<open>The example run of the service and of a session\<close>

lemma validateConfig_example: "validateConfig exampleRawConfig = Inr exampleConfig"
  by (simp add: validateConfig_def exampleRawConfig_def exampleConfig_def orDefault_def
      jsTrim_def isSpaceChar_def Let_def)

lemma execute_failedRun:
  "execute exampleConfig failedRun
     = ([], Some (Fulfilled (execFailure ''Traceroute failed with exit code 1'')))"
  by (simp add: execute_def failedRun_def exampleConfig_def intToString_def natToString.simps)

text \<open>
  The model of \<open>trace\<close> on a run that reports two hops and exits normally: the
  promise is fulfilled with a success result; the first hop answered its probe, the
  second (whose probe hangs) is unreachable and has two timeout entries.
\<close>

lemma trace_goodRun:
  "\<exists>r. trace exampleCaps 0 exampleRawConfig goodRun = Some (Fulfilled r) \<and> t_success r
      \<and> map isReachable (t_hops r) = [True, False]
      \<and> map (\<lambda>h. map_option length (pingHistory h)) (t_hops r) = [Some 1, Some 2]"
  by (simp add: trace_def validateConfig_example exampleCaps_def)
    (simp add: exampleConfig_def execute_def goodRun_def handleUpdate_def processHop_def
       parseHopData_def settle_def Let_def rawHopKey_def natToString.simps completeRun_def
       isValidHop_def selectHops_def analyseHops_def shouldSkipHop_def analyzeSlowHop_def
       getHopPriority_def probeBatch_def pingOne_def pingHopWithRetry_cases exampleProbe_def
       applyPingResult_def addRecentPing_def addTimeoutPing_def writeBack_def backfillHop_def
       populatePingHistory_def pingHistoryOrEmpty_def shiftIfOver_def truthyNumber_def
       pingNumberOr_def failedPing_def upt_rec)

text \<open>
  The state after \<open>startContinuousSession\<close> on an empty manager: the session is
  registered with \<open>runCount = 0\<close>, the local \<open>runCount\<close> is 1, and the discovery
  process of the first tick is in flight.
\<close>

lemma started_session:
  "snd (startContinuousSession exampleConfig ''s1'' ''p1'' 0 failedRun emptyManager)
   = \<lparr>activeSessions = [(''s1'', \<lparr>s_target = ''192.0.2.1'', s_config = exampleConfig,
          s_isRunning = True, s_runCount = 0, s_startTime = 0\<rparr>)],
      closures = [(''s1'', \<lparr>c_config = exampleConfig, c_isRunning = True, c_runCount = 1,
          c_allHops = [], c_startTime = 0\<rparr>)],
      activeProcesses = [''p1''], stoppedTracers = [], pendingTimers = [],
      completeEvents = [], hopPingCounters = []\<rparr>"
  by (simp add: startContinuousSession_def runTracerouteBegin_def emptyManager_def
      failedRun_def Let_def) (simp add: exampleConfig_def)

subsection \<open>C6: the promise of trace\<close>

text \<open>
  Whenever the executor resolves its promise without having sent a \<open>complete\<close>
  update (as it does for every discovery failure it detects), the promise of
  \<open>trace\<close> is left pending.
\<close>

lemma trace_pending_on_resolved_failure:
  assumes "validateConfig rawConfig = Inr cfg"
    and "cap_resolve caps (target cfg) = Inr rt"
    and "execute cfg run = ([], Some (Fulfilled res))"
  shows "trace caps now rawConfig run = None"
  using assms by (simp add: trace_def)

text \<open>
  C6 (the code at the failing inputs): with a valid configuration and a resolvable
  target, a discovery process that exits with code 1 before any hop leaves the promise
  of \<open>trace\<close> pending for ever, and a hop event without data makes it reject. The
  claim says it always resolves to a structured result and never rejects.
\<close>

theorem C6_trace_pending_or_rejected:
  "trace exampleCaps 0 exampleRawConfig failedRun = None
   \<and> trace exampleCaps 0 exampleRawConfig malformedRun
       = Some (Rejected ''Cannot read properties of null (reading hop)'')"
proof -
  have "trace exampleCaps 0 exampleRawConfig failedRun = None"
    by (simp add: trace_def validateConfig_example exampleCaps_def execute_failedRun)
  moreover have "trace exampleCaps 0 exampleRawConfig malformedRun
       = Some (Rejected ''Cannot read properties of null (reading hop)'')"
    by (simp add: trace_def validateConfig_example exampleCaps_def)
      (simp add: exampleConfig_def execute_def malformedRun_def handleUpdate_def
         processHop_def parseHopData_def settle_def Let_def)
  ultimately show ?thesis by blast
qed

subsection \<open>C7: stopping a session\<close>

lemma stop_registry:
  "st_success (fst (stopContinuousSession sid m))
   \<and> map_of (activeSessions (snd (stopContinuousSession sid m))) sid = None
   \<and> (\<forall>sid'. sid' \<noteq> sid \<longrightarrow>
         map_of (activeSessions (snd (stopContinuousSession sid m))) sid'
           = map_of (activeSessions m) sid')
   \<and> activeProcesses (snd (stopContinuousSession sid m)) = activeProcesses m
   \<and> stoppedTracers (snd (stopContinuousSession sid m)) = stoppedTracers m"
  by (auto simp: stopContinuousSession_def delete_conv' split: option.splits)

lemma stop_unknown:
  assumes "map_of (activeSessions m) sid = None"
  shows "stopContinuousSession sid m
           = (\<lparr>st_success = True, st_message = ''Session already stopped or not found''\<rparr>, m)"
proof -
  from assms have "sid \<notin> fst ` set (activeSessions m)" by (simp add: map_of_eq_None_iff)
  then have "AList.delete sid (activeSessions m) = activeSessions m" by (rule delete_id)
  with assms show ?thesis by (simp add: stopContinuousSession_def)
qed

lemma stop_not_running:
  assumes "map_of (activeSessions m) sid \<noteq> None" and "map_of (closures m) sid = Some c"
  shows "map_of (closures (snd (stopContinuousSession sid m))) sid
           = Some (c\<lparr>c_isRunning := False\<rparr>)"
  using assms by (auto simp: stopContinuousSession_def update_conv' split: option.splits)

lemma runTracerouteBegin_not_running:
  "map_of (closures m) sid = Some c \<Longrightarrow> \<not> c_isRunning c \<Longrightarrow>
     runTracerouteBegin sid pid run m = m"
  by (simp add: runTracerouteBegin_def)

lemma runTracerouteEnd_not_running:
  "map_of (closures m) sid = Some c \<Longrightarrow> \<not> c_isRunning c \<Longrightarrow>
     pendingTimers (runTracerouteEnd dns probe now sid pid run m) = pendingTimers m"
  by (simp add: runTracerouteEnd_def Let_def split: option.splits outcome.splits)

text \<open>
  What \<open>stopContinuousSession\<close> does, for every state of the manager and every
  session id: it returns a success result and leaves no session registered under that
  id, other sessions untouched. For a registered session it sets the session's running
  flag to false, so that a tick of that session that starts later does nothing and a
  tick that ends later schedules no further tick. It writes neither the executor's
  process table nor the list of tracers asked to stop. For an unknown or already
  stopped id it changes nothing, so stopping twice succeeds twice.
\<close>

lemma stopContinuousSession_effect:
  "st_success (fst (stopContinuousSession sid m))
   \<and> map_of (activeSessions (snd (stopContinuousSession sid m))) sid = None
   \<and> (\<forall>sid'. sid' \<noteq> sid \<longrightarrow>
         map_of (activeSessions (snd (stopContinuousSession sid m))) sid'
           = map_of (activeSessions m) sid')
   \<and> (\<forall>c. map_of (activeSessions m) sid \<noteq> None \<and> map_of (closures m) sid = Some c \<longrightarrow>
         map_of (closures (snd (stopContinuousSession sid m))) sid
           = Some (c\<lparr>c_isRunning := False\<rparr>)
         \<and> runTracerouteBegin sid pid run (snd (stopContinuousSession sid m))
             = snd (stopContinuousSession sid m)
         \<and> pendingTimers (runTracerouteEnd dns probe now sid pid run
                             (snd (stopContinuousSession sid m)))
             = pendingTimers m)
   \<and> activeProcesses (snd (stopContinuousSession sid m)) = activeProcesses m
   \<and> stoppedTracers (snd (stopContinuousSession sid m)) = stoppedTracers m
   \<and> (map_of (activeSessions m) sid = None \<longrightarrow> snd (stopContinuousSession sid m) = m)
   \<and> stopContinuousSession sid (snd (stopContinuousSession sid m))
       = (\<lparr>st_success = True, st_message = ''Session already stopped or not found''\<rparr>,
          snd (stopContinuousSession sid m))"
proof -
  let ?m' = "snd (stopContinuousSession sid m)"
  have gone: "map_of (activeSessions ?m') sid = None" using stop_registry by blast
  have flag: "\<forall>c. map_of (activeSessions m) sid \<noteq> None \<and> map_of (closures m) sid = Some c \<longrightarrow>
         map_of (closures ?m') sid = Some (c\<lparr>c_isRunning := False\<rparr>)
         \<and> runTracerouteBegin sid pid run ?m' = ?m'
         \<and> pendingTimers (runTracerouteEnd dns probe now sid pid run ?m') = pendingTimers m"
  proof (intro allI impI)
    fix c assume a: "map_of (activeSessions m) sid \<noteq> None \<and> map_of (closures m) sid = Some c"
    then have c': "map_of (closures ?m') sid = Some (c\<lparr>c_isRunning := False\<rparr>)"
      using stop_not_running by blast
    have nr: "\<not> c_isRunning (c\<lparr>c_isRunning := False\<rparr>)" by simp
    have t: "pendingTimers ?m' = pendingTimers m"
      by (simp add: stopContinuousSession_def split: option.splits)
    from runTracerouteBegin_not_running [OF c' nr] runTracerouteEnd_not_running [OF c' nr] c' t
    show "map_of (closures ?m') sid = Some (c\<lparr>c_isRunning := False\<rparr>)
         \<and> runTracerouteBegin sid pid run ?m' = ?m'
         \<and> pendingTimers (runTracerouteEnd dns probe now sid pid run ?m') = pendingTimers m"
      by simp
  qed
  have unk: "map_of (activeSessions m) sid = None \<longrightarrow> ?m' = m"
    using stop_unknown [of m sid] by simp
  from stop_registry [of sid m] flag unk stop_unknown [OF gone] show ?thesis
    by blast
qed

text \<open>
  C7 (the code at the failing input): a session is started, so the discovery process
  \<open>p1\<close> of its first tick is in flight, and the session is stopped. The claim says
  that the stop terminates the in-flight discovery process. In the code the process is
  still in the executor's process table after the stop and no tracer was asked to stop;
  the executor asks the tracer to stop only when the run ends by itself (here, when the
  process closes at 900 ms: only then does \<open>p1\<close> leave the table). The rest of the
  claim holds at this input: the running flag of the session is false, the registry is
  empty, and a second stop, or the stop of an unknown id, returns a success result.
\<close>

theorem C7_stop_leaves_process_running:
  "activeProcesses
     (snd (startContinuousSession exampleConfig ''s1'' ''p1'' 0 failedRun emptyManager)) = [''p1'']
   \<and> activeProcesses (snd (stopContinuousSession ''s1''
        (snd (startContinuousSession exampleConfig ''s1'' ''p1'' 0 failedRun emptyManager))))
      = [''p1'']
   \<and> stoppedTracers (snd (stopContinuousSession ''s1''
        (snd (startContinuousSession exampleConfig ''s1'' ''p1'' 0 failedRun emptyManager))))
      = []
   \<and> activeProcesses (runTracerouteEnd (\<lambda>a ms. None) exampleProbe 900 ''s1'' ''p1'' failedRun
        (snd (stopContinuousSession ''s1''
          (snd (startContinuousSession exampleConfig ''s1'' ''p1'' 0 failedRun emptyManager)))))
      = []
   \<and> stoppedTracers (runTracerouteEnd (\<lambda>a ms. None) exampleProbe 900 ''s1'' ''p1'' failedRun
        (snd (stopContinuousSession ''s1''
          (snd (startContinuousSession exampleConfig ''s1'' ''p1'' 0 failedRun emptyManager)))))
      = [''p1'']
   \<and> map (c_isRunning \<circ> snd) (closures (snd (stopContinuousSession ''s1''
        (snd (startContinuousSession exampleConfig ''s1'' ''p1'' 0 failedRun emptyManager)))))
       = [False]
   \<and> activeSessions (snd (stopContinuousSession ''s1''
        (snd (startContinuousSession exampleConfig ''s1'' ''p1'' 0 failedRun emptyManager)))) = []
   \<and> fst (stopContinuousSession ''s1''
        (snd (startContinuousSession exampleConfig ''s1'' ''p1'' 0 failedRun emptyManager)))
      = \<lparr>st_success = True, st_message = ''Continuous traceroute stopped''\<rparr>
   \<and> fst (stopContinuousSession ''s1'' (snd (stopContinuousSession ''s1''
        (snd (startContinuousSession exampleConfig ''s1'' ''p1'' 0 failedRun emptyManager)))))
      = \<lparr>st_success = True, st_message = ''Session already stopped or not found''\<rparr>
   \<and> stopContinuousSession ''s9'' emptyManager
      = (\<lparr>st_success = True, st_message = ''Session already stopped or not found''\<rparr>,
         emptyManager)"
proof -
  let ?m = "snd (startContinuousSession exampleConfig ''s1'' ''p1'' 0 failedRun emptyManager)"
  let ?stopped = "\<lparr>activeSessions = [],
      closures = [(''s1'', \<lparr>c_config = exampleConfig, c_isRunning = False, c_runCount = 1,
          c_allHops = [], c_startTime = 0\<rparr>)],
      activeProcesses = [''p1''], stoppedTracers = [], pendingTimers = [],
      completeEvents = [], hopPingCounters = []\<rparr>"
  have s1: "stopContinuousSession ''s1'' ?m
              = (\<lparr>st_success = True, st_message = ''Continuous traceroute stopped''\<rparr>, ?stopped)"
    by (simp add: started_session stopContinuousSession_def)
  have s2: "stopContinuousSession ''s1'' ?stopped
              = (\<lparr>st_success = True, st_message = ''Session already stopped or not found''\<rparr>,
                 ?stopped)"
    by (simp add: stopContinuousSession_def)
  have "map_of (activeSessions emptyManager) ''s9'' = None" by (simp add: emptyManager_def)
  from stop_unknown [OF this]
  have s9: "stopContinuousSession ''s9'' emptyManager
              = (\<lparr>st_success = True, st_message = ''Session already stopped or not found''\<rparr>,
                 emptyManager)" .
  have e: "activeProcesses (runTracerouteEnd (\<lambda>a ms. None) exampleProbe 900 ''s1'' ''p1''
                failedRun ?stopped) = []
           \<and> stoppedTracers (runTracerouteEnd (\<lambda>a ms. None) exampleProbe 900 ''s1'' ''p1''
                failedRun ?stopped) = [''p1'']"
    by (simp add: runTracerouteEnd_def execute_failedRun Let_def)
  have m: "activeProcesses ?m = [''p1'']" by (simp add: started_session)
  from m e s2 show ?thesis by (simp add: s1 s9)
qed

subsection \<open>C8: a failed tick\<close>

text \<open>
  A tick whose awaited discovery settles, in whatever way, leaves the registry as it
  is and, while the session is running, schedules the next tick after the configured
  interval.
\<close>

lemma settled_tick_keeps_loop:
  assumes "map_of (closures m) sid = Some c" and "c_isRunning c"
    and "snd (execute (c_config c) run) \<noteq> None"
  shows "activeSessions (runTracerouteEnd dns probe now sid pid run m) = activeSessions m
         \<and> pendingTimers (runTracerouteEnd dns probe now sid pid run m)
             = pendingTimers m @ [(sid, interval (c_config c))]"
  using assms by (auto simp: runTracerouteEnd_def Let_def split: option.splits outcome.splits)

text \<open>
  C8 (the code at the failing input): the first tick of a session whose discovery
  process exits with code 1 before any hop. The executor resolves with
  \<open>{ success: false, error }\<close>, so \<open>onComplete\<close> is called once, with a
  \<open>run_complete\<close> event carrying that result, not with \<open>run_error\<close> and an error
  message as the claim says. The session stays registered and the next tick is
  scheduled after the interval of 1000 ms.
\<close>

theorem C8_failed_tick_reported_run_complete:
  "completeEvents
     (runTracerouteEnd (\<lambda>a ms. None) exampleProbe 900 ''s1'' ''p1'' failedRun
        (snd (startContinuousSession exampleConfig ''s1'' ''p1'' 0 failedRun emptyManager)))
   = [\<lparr>ce_type = run_complete, ce_sessionId = ''s1'', ce_runNumber = 1,
       ce_result = Some (execFailure ''Traceroute failed with exit code 1''),
       ce_error = None\<rparr>]
   \<and> map si_sessionId (getActiveSessions 900
        (runTracerouteEnd (\<lambda>a ms. None) exampleProbe 900 ''s1'' ''p1'' failedRun
          (snd (startContinuousSession exampleConfig ''s1'' ''p1'' 0 failedRun emptyManager))))
      = [''s1'']
   \<and> pendingTimers
        (runTracerouteEnd (\<lambda>a ms. None) exampleProbe 900 ''s1'' ''p1'' failedRun
          (snd (startContinuousSession exampleConfig ''s1'' ''p1'' 0 failedRun emptyManager)))
      = [(''s1'', 1000)]"
  by (simp add: started_session runTracerouteEnd_def execute_failedRun Let_def
      getActiveSessions_def) (simp add: exampleConfig_def)

subsection \<open>C9: the run counter in the registry\<close>

text \<open>No step of a tick writes to the registry.\<close>

lemma tick_leaves_registry:
  "activeSessions (runTracerouteBegin sid pid run m) = activeSessions m
   \<and> activeSessions (runTracerouteEnd dns probe now sid pid run m) = activeSessions m
   \<and> activeSessions (fireTimer sid pid run m) = activeSessions m"
  by (auto simp: runTracerouteBegin_def runTracerouteEnd_def fireTimer_def Let_def
      split: option.splits outcome.splits)

text \<open>
  C9 (the code at the failing input): a session is started (tick 1 starts), its first
  tick ends, the timer fires (tick 2 starts). The local run counter of the session is 2,
  and \<open>getActiveSessions\<close> reports \<open>runCount = 0\<close>, as it did after tick 1: it
  reads the copy stored at registration. The claim says it reports the number of ticks.
\<close>

theorem C9_registry_runCount_stays_zero:
  "map si_runCount (getActiveSessions 900
      (snd (startContinuousSession exampleConfig ''s1'' ''p1'' 0 failedRun emptyManager))) = [0]
   \<and> map (c_runCount \<circ> snd)
        (closures (fireTimer ''s1'' ''p2'' failedRun
           (runTracerouteEnd (\<lambda>a ms. None) exampleProbe 900 ''s1'' ''p1'' failedRun
              (snd (startContinuousSession exampleConfig ''s1'' ''p1'' 0 failedRun emptyManager)))))
       = [2]
   \<and> map si_runCount (getActiveSessions 2000
        (fireTimer ''s1'' ''p2'' failedRun
           (runTracerouteEnd (\<lambda>a ms. None) exampleProbe 900 ''s1'' ''p1'' failedRun
              (snd (startContinuousSession exampleConfig ''s1'' ''p1'' 0 failedRun emptyManager)))))
       = [0]"
  by (simp add: started_session runTracerouteEnd_def execute_failedRun Let_def
      getActiveSessions_def fireTimer_def runTracerouteBegin_def)
    (simp add: exampleConfig_def failedRun_def)

end
